theory Spec2Isabelle
  imports Main "HOL-Library.Word" "HOL-Library.Signed_Division" "HOL-Library.Code_Target_Numeral"
begin

section \<open>The safelease sector codec (src/vdsm/storage/protect/safelease.c)\<close>

text \<open>
  Bytes are \<^typ>\<open>char\<close>; a C buffer is a \<^typ>\<open>string\<close> (a list of bytes).  A buffer
  that is read as a C string (by \<open>%s\<close> or by \<open>strtoull\<close>) ends at its first NUL byte:
  \<open>cstr\<close> gives the bytes before it.  The tag buffers of the source are
  \<open>char[taglen+1]\<close> whose last byte is always NUL; the model keeps their first
  \<open>taglen\<close> bytes.  \<open>long\<close>, \<open>long long\<close> and \<open>unsigned long long\<close> are
  \<^typ>\<open>64 word\<close> (LP64), read as signed where the source's type is signed.
\<close>

type_synonym u64 = "64 word"

text \<open>C's \<open>/\<close> and \<open>%\<close> on \<open>long long\<close>: the quotient truncates towards zero.\<close>

definition c_div :: "u64 \<Rightarrow> u64 \<Rightarrow> u64" where
  "c_div a b = word_of_int (sint a sdiv sint b)"

definition c_rem :: "u64 \<Rightarrow> u64 \<Rightarrow> u64" where
  "c_rem a b = word_of_int (sint a smod sint b)"

definition NUL :: char where
  "NUL = CHR 0x00"

definition cstr :: "string \<Rightarrow> string" where
  "cstr b = takeWhile (\<lambda>c. c \<noteq> NUL) b"

definition freetag :: string where
  "freetag = ''------FREE------0000000000000000''"

definition idlen :: nat where
  "idlen = 16"

definition stamplen :: nat where
  "stamplen = 16"

definition taglen :: nat where
  "taglen = idlen + stamplen"

subsection \<open>The two printf conversions the source uses\<close>

text \<open>\<open>%-*s\<close>: the string, then spaces up to the field width; a longer string is
  printed whole.\<close>

definition fmt_ljust :: "nat \<Rightarrow> string \<Rightarrow> string" where
  "fmt_ljust width s = cstr s @ replicate (width - length (cstr s)) (CHR '' '')"

definition hexdigit :: "nat \<Rightarrow> char" where
  "hexdigit d = ''0123456789abcdef'' ! (d mod 16)"

fun llx :: "nat \<Rightarrow> string" where
  "llx n = (if n < 16 then [hexdigit n] else llx (n div 16) @ [hexdigit (n mod 16)])"

declare llx.simps [simp del]

text \<open>\<open>%0*llx\<close>: the argument read as \<open>unsigned long long\<close>, in lowercase hexadecimal
  without leading zeros, then padded on the left with \<open>0\<close> up to the field width.\<close>

definition fmt_0llx :: "nat \<Rightarrow> u64 \<Rightarrow> string" where
  "fmt_0llx width v =
     (let d = llx (unat v) in replicate (width - length d) (CHR ''0'') @ d)"

text \<open>\<open>snprintf(buf, size, ...)\<close> keeps at most \<open>size - 1\<close> bytes of the output.\<close>

definition snprintf :: "nat \<Rightarrow> string \<Rightarrow> string" where
  "snprintf n out = take (n - 1) out"

subsection \<open>strtoull(s, 0, 16)\<close>

text \<open>
  The C library's conversion, for base 16: leading white space, an optional sign, an
  optional \<open>0x\<close>, then the longest run of hexadecimal digits; no digits give 0; a value
  that does not fit 64 bits gives \<open>ULLONG_MAX\<close>; a minus sign negates modulo \<open>2^64\<close>.
\<close>

definition isspace :: "char \<Rightarrow> bool" where
  "isspace c = (c \<in> set [CHR '' '', CHR 0x09, CHR 0x0A, CHR 0x0B, CHR 0x0C, CHR 0x0D])"

definition hexval :: "char \<Rightarrow> nat option" where
  "hexval c =
     (let n = (of_char c :: nat) in
      if 48 \<le> n \<and> n \<le> 57 then Some (n - 48)
      else if 97 \<le> n \<and> n \<le> 102 then Some (n - 87)
      else if 65 \<le> n \<and> n \<le> 70 then Some (n - 55)
      else None)"

definition isxdigit :: "char \<Rightarrow> bool" where
  "isxdigit c = (hexval c \<noteq> None)"

definition hexacc :: "nat \<Rightarrow> char \<Rightarrow> nat" where
  "hexacc a c = 16 * a + (case hexval c of Some d \<Rightarrow> d | None \<Rightarrow> 0)"

definition strip_sign :: "string \<Rightarrow> bool \<times> string" where
  "strip_sign s =
     (case s of
        [] \<Rightarrow> (False, [])
      | c # r \<Rightarrow> if c = CHR ''-'' then (True, r)
                 else if c = CHR ''+'' then (False, r)
                 else (False, s))"

definition strip_0x :: "string \<Rightarrow> string" where
  "strip_0x s =
     (case s of
        z # x # h # r \<Rightarrow>
          if z = CHR ''0'' \<and> (x = CHR ''x'' \<or> x = CHR ''X'') \<and> isxdigit h then h # r else s
      | _ \<Rightarrow> s)"

definition strtoull16 :: "string \<Rightarrow> u64" where
  "strtoull16 s =
     (let (neg, body) = strip_sign (dropWhile isspace (cstr s));
          ds = takeWhile isxdigit (strip_0x body);
          n = foldl hexacc 0 ds
      in if 2 ^ 64 \<le> n then - 1
         else if neg then - (of_nat n) else of_nat n)"

subsection \<open>Tags\<close>

definition sametag :: "string \<Rightarrow> string \<Rightarrow> bool" where
  "sametag tag1 tag2 = (take taglen tag1 = take taglen tag2)"

definition isfree :: "string \<Rightarrow> bool" where
  "isfree tag = sametag tag freetag"

definition buildtag :: "string \<Rightarrow> u64 \<Rightarrow> string" where
  "buildtag ident ts = snprintf (taglen + 1) (fmt_ljust idlen ident @ fmt_0llx stamplen ts)"

definition sameid :: "string \<Rightarrow> string \<Rightarrow> bool" where
  "sameid tag ident = (take idlen tag = snprintf (idlen + 1) (fmt_ljust idlen ident))"

text \<open>\<open>querytag\<close> returns the two out-parameters: the 16 identity bytes as they
  are in the tag, and the stamp read by \<open>strtoull\<close>.\<close>

definition querytag :: "string \<Rightarrow> string \<times> u64" where
  "querytag tag = (take idlen tag, strtoull16 (take stamplen (drop idlen tag)))"

text \<open>\<open>validate_id\<close> panics on an identity of more than \<open>idlen\<close> bytes and on one
  that \<open>strncmp\<close> finds equal to the sentinel over \<open>idlen\<close> bytes; the model says
  whether the identity is accepted.\<close>

definition validate_id :: "string \<Rightarrow> bool" where
  "validate_id ident =
     (\<not> idlen < length (cstr ident) \<and> take idlen (cstr ident) \<noteq> take idlen (cstr freetag))"

section \<open>Timed sector I/O\<close>

text \<open>
  One invocation of the program works on one sector of one file.  The world of a run:
  \<open>disk\<close>, the bytes of the file from the lease offset on (512 of them on a provisioned
  device); \<open>iobuf\<close>, the process's 512-byte buffer, shared by every read and write;
  \<open>clock\<close>, the wall clock in microseconds; \<open>errno\<close>.  Time passes only inside
  \<open>pread\<close> and \<open>pwrite\<close>.  What the kernel answers to one such call is an input of
  the model: \<open>ret\<close> is the count the call returns (negative: the call fails and sets
  \<open>errno\<close> to \<open>err\<close>), \<open>dur\<close> the microseconds it takes.  Diagnostic output
  (\<open>DEBUG\<close>) is not modelled.
\<close>

record timeval =
  tv_sec :: u64
  tv_usec :: u64

record world =
  disk :: string
  iobuf :: string
  clock :: nat
  errno :: int

record io =
  ret :: int
  dur :: nat
  err :: int

record params =
  lease_ms :: u64
  op_max_ms :: u64

definition ETIMEDOUT :: int where
  "ETIMEDOUT = 110"

text \<open>\<open>main\<close> allocates the buffer and clears it before any operation runs.\<close>

definition init_world :: "string \<Rightarrow> nat \<Rightarrow> world" where
  "init_world d c = \<lparr>disk = d, iobuf = replicate 512 NUL, clock = c, errno = 0\<rparr>"

definition gettimeofday :: "world \<Rightarrow> timeval" where
  "gettimeofday w =
     \<lparr>tv_sec = of_nat (clock w div 1000000), tv_usec = of_nat (clock w mod 1000000)\<rparr>"

definition pread :: "io \<Rightarrow> world \<Rightarrow> int \<times> world" where
  "pread e w =
     (let w1 = w\<lparr>clock := clock w + dur e\<rparr> in
      if ret e < 0 then (- 1, w1\<lparr>errno := err e\<rparr>)
      else
        let n = min (nat (ret e)) (min 512 (length (disk w)))
        in (int n, w1\<lparr>iobuf := take n (disk w) @ drop n (iobuf w)\<rparr>))"

definition pwrite :: "io \<Rightarrow> world \<Rightarrow> int \<times> world" where
  "pwrite e w =
     (let w1 = w\<lparr>clock := clock w + dur e\<rparr> in
      if ret e < 0 then (- 1, w1\<lparr>errno := err e\<rparr>)
      else
        let n = min (nat (ret e)) (min 512 (length (iobuf w)))
        in (int n, w1\<lparr>disk := take n (iobuf w) @ drop n (disk w)\<rparr>))"

definition tv2msec :: "timeval \<Rightarrow> u64" where
  "tv2msec tv = tv_sec tv * 1000 + c_div (tv_usec tv) 1000"

definition withintimelimits :: "params \<Rightarrow> timeval \<Rightarrow> timeval \<Rightarrow> world \<Rightarrow> bool \<times> world" where
  "withintimelimits p start stop w =
     (if op_max_ms p \<le>s 0 then (True, w)
      else
        let delta = tv2msec stop - tv2msec start
        in if op_max_ms p < delta then (False, w\<lparr>errno := - ETIMEDOUT\<rparr>) else (True, w))"

text \<open>The test \<open>limit && !withintimelimits(&start, &stop)\<close>, evaluated only when the
  test before it in the same condition is false.\<close>

definition over_limit :: "params \<Rightarrow> bool \<Rightarrow> timeval \<Rightarrow> timeval \<Rightarrow> world \<Rightarrow> bool \<times> world" where
  "over_limit p limit start stop w =
     (if limit then (let (ok, w') = withintimelimits p start stop w in (\<not> ok, w'))
      else (False, w))"

text \<open>\<open>readtag\<close> returns its result and the caller's tag buffer, which it changes
  only when it succeeds.\<close>

definition readtag :: "params \<Rightarrow> io \<Rightarrow> string \<Rightarrow> bool \<Rightarrow> world \<Rightarrow> int \<times> string \<times> world" where
  "readtag p e tag limit w =
     (let start = gettimeofday w;
          (r, w1) = pread e w;
          stop = gettimeofday w1;
          (bad, w2) = (if r \<le> 0 then (True, w1) else over_limit p limit start stop w1)
      in if bad then (- 1, tag, w2) else (r, take taglen (iobuf w2), w2))"

definition writetag :: "params \<Rightarrow> io \<Rightarrow> string \<Rightarrow> bool \<Rightarrow> world \<Rightarrow> int \<times> world" where
  "writetag p e tag limit w =
     (let w0 = w\<lparr>iobuf := take taglen tag @ drop taglen (iobuf w)\<rparr>;
          start = gettimeofday w0;
          (n, w1) = pwrite e w0;
          r = (if n < int taglen then - 1 else 0);
          stop = gettimeofday w1;
          (bad, w2) = (if r < 0 then (True, w1) else over_limit p limit start stop w1)
      in if bad then (- 1, w2) else (r, w2))"

text \<open>\<open>writetimestamp\<close> returns its result, the tag it built and the caller's
  \<open>ts\<close>, which it assigns under the source's test \<open>r > 0\<close>.\<close>

definition writetimestamp :: "params \<Rightarrow> io \<Rightarrow> string \<Rightarrow> u64 \<Rightarrow> world \<Rightarrow> int \<times> string \<times> u64 \<times> world" where
  "writetimestamp p e ident ts w =
     (let tv = gettimeofday w;
          t = tv_sec tv * 1000000 + tv_usec tv;
          tag = buildtag ident t;
          (r, w1) = writetag p e tag True w
      in (r, tag, (if 0 < r then t else ts), w1))"

section \<open>The lease operations\<close>

text \<open>
  The kernel's answers to one operation: whether \<open>sigaction\<close> succeeds, the answer to
  the operation's read and the answer to its write.

  \<open>alarm(0)\<close> arms nothing (the source calls it to disable the alarm); \<open>alarm(s)\<close>
  with \<open>s > 0\<close> delivers \<open>SIGALRM\<close> \<open>s\<close> seconds later, and the handler that
  \<open>renew\<close> installs panics.  Between \<open>alarm(msleft / 1000)\<close> and the \<open>alarm(0)\<close>
  after it the only call that takes time is the \<open>pwrite\<close> of \<open>writetimestamp\<close>, so the
  signal is delivered exactly when that write lasts as long as the armed delay.
  A panic ends the process (\<open>exit(-1)\<close>); nothing is said of the sector then.
\<close>

record env =
  sigaction_ok :: bool
  rd :: io
  wr :: io

datatype outcome = Panic | Return int u64 world

definition alarm_fires :: "32 word \<Rightarrow> nat \<Rightarrow> bool" where
  "alarm_fires secs d = (secs \<noteq> 0 \<and> unat secs * 1000000 \<le> d)"

definition timeleft_ms :: "params \<Rightarrow> u64 \<Rightarrow> world \<Rightarrow> u64" where
  "timeleft_ms p tsprev w =
     (let tsprev' = c_div tsprev 1000;
          tscurr = tv2msec (gettimeofday w)
      in lease_ms p - (tscurr - tsprev'))"

text \<open>\<open>renew\<close>: \<open>Return rc ts w\<close> is the return value, the caller's \<open>*ts\<close> and the
  world afterwards.\<close>

definition renew :: "params \<Rightarrow> env \<Rightarrow> string \<Rightarrow> u64 \<Rightarrow> world \<Rightarrow> outcome" where
  "renew p e ident ts w =
     (if \<not> sigaction_ok e then Panic
      else
        let (r, cur, w1) = readtag p (rd e) (replicate taglen NUL) False w in
        if r < 0 then Return (- errno w1) ts w1
        else if \<not> sameid cur ident then Return 0 0 w1
        else
          let ts1 = snd (querytag cur);
              msleft = timeleft_ms p ts1 w1 in
          if msleft \<le>s 0 then Return (- ETIMEDOUT) ts1 w1
          else if alarm_fires (ucast (c_div msleft 1000)) (dur (wr e)) then Panic
          else
            let (r2, tag, ts2, w2) = writetimestamp p (wr e) ident ts1 w1 in
            if r2 < 0 then Return (- errno w2) ts2 w2
            else Return 1 ts2 w2)"

definition release :: "params \<Rightarrow> env \<Rightarrow> string \<Rightarrow> bool \<Rightarrow> world \<Rightarrow> int \<times> world" where
  "release p e ident force w =
     (let (done, rc, w1) =
            (if \<not> force then
               let (r, cur, w') = readtag p (rd e) (replicate taglen NUL) False w in
               if r < 0 then (True, - errno w', w')
               else if \<not> sameid cur ident then (True, 0, w')
               else (False, 0, w')
             else (False, 0, w))
      in if done then (rc, w1)
         else
           let (r, w2) = writetag p (wr e) freetag False w1
           in (if r < 0 then - 1 else 1, w2))"

text \<open>\<open>query\<close> prints one line; the model returns the arguments of that \<open>printf\<close>.
  \<open>ctime\<close> is the C library's and is a parameter.\<close>

record query_line =
  status :: string
  shown_id :: string
  shown_ts :: u64
  shown_time :: string
  shown_usec :: "32 word"

definition query :: "(u64 \<Rightarrow> string) \<Rightarrow> params \<Rightarrow> io \<Rightarrow> world \<Rightarrow> int \<times> query_line option \<times> world" where
  "query ctime p e w =
     (let (r, cur, w1) = readtag p e (replicate taglen NUL) False w in
      if r < 0 then (- errno w1, None, w1)
      else
        let (ident, ts) = querytag cur;
            tsec = c_div ts 1000000;
            tusec = (ucast (c_rem ts 1000000) :: 32 word);
            t = butlast (cstr (ctime tsec))
        in (1,
            Some \<lparr>status = (if sameid cur freetag then ''FREE'' else ''LOCKED''),
                  shown_id = ident, shown_ts = ts, shown_time = t, shown_usec = tusec\<rparr>,
            w1))"

section \<open>Properties of the codec\<close>

subsection \<open>Formatting and parsing\<close>

lemma cstr_noNUL: "NUL \<notin> set s \<Longrightarrow> cstr s = s"
  by (auto simp: cstr_def takeWhile_eq_all_conv)

lemma cstr_has_noNUL: "NUL \<notin> set (cstr s)"
  unfolding cstr_def by (induction s) auto

lemma length_fmt_ljust: "length (cstr s) \<le> n \<Longrightarrow> length (fmt_ljust n s) = n"
  by (simp add: fmt_ljust_def)

lemma fmt_ljust_noNUL: "NUL \<notin> set (fmt_ljust n s)"
  using cstr_has_noNUL [of s] by (auto simp: fmt_ljust_def NUL_def)

lemma hexval_hexdigit: "d < 16 \<Longrightarrow> hexval (hexdigit d) = Some d"
proof -
  assume "d < 16"
  then have "d \<in> {0,1,2,3,4,5,6,7,8,9,10,11,12,13,14,15}"
    by simp arith
  then show ?thesis
    by (auto simp: hexdigit_def hexval_def)
qed

lemma hexdigit_in: "hexdigit d \<in> set ''0123456789abcdef''"
proof -
  have "d mod 16 < length ''0123456789abcdef''" by simp
  then show ?thesis unfolding hexdigit_def by (rule nth_mem)
qed

lemma llx_in: "set (llx n) \<subseteq> set ''0123456789abcdef''"
proof (induction n rule: llx.induct)
  case (1 n)
  show ?case
  proof (cases "n < 16")
    case True
    then show ?thesis using hexdigit_in [of n] by (subst llx.simps) simp
  next
    case False
    then show ?thesis using 1 hexdigit_in [of "n mod 16"] by (subst llx.simps) simp
  qed
qed

lemma llx_length: "0 < k \<Longrightarrow> n < 16 ^ k \<Longrightarrow> length (llx n) \<le> k"
proof (induction k arbitrary: n)
  case 0
  then show ?case by simp
next
  case (Suc k)
  show ?case
  proof (cases "n < 16")
    case True
    then show ?thesis by (subst llx.simps) simp
  next
    case False
    with Suc.prems have k: "0 < k" by (cases k) auto
    from Suc.prems have "n div 16 < 16 ^ k"
      by (simp add: less_mult_imp_div_less mult.commute)
    with Suc.IH k have "length (llx (n div 16)) \<le> k" by blast
    with False show ?thesis by (subst llx.simps) simp
  qed
qed

lemma llx_nonempty: "llx n \<noteq> []"
  by (subst llx.simps) simp

lemma hexacc_hexdigit: "d < 16 \<Longrightarrow> hexacc a (hexdigit d) = 16 * a + d"
  by (simp add: hexacc_def hexval_hexdigit)

lemma foldl_hexacc_llx: "foldl hexacc a (llx n) = a * 16 ^ length (llx n) + n"
proof (induction n arbitrary: a rule: llx.induct)
  case (1 n)
  show ?case
  proof (cases "n < 16")
    case True
    then have "llx n = [hexdigit n]" by (subst llx.simps) simp
    with True show ?thesis by (simp add: hexacc_hexdigit)
  next
    case False
    then have eq: "llx n = llx (n div 16) @ [hexdigit (n mod 16)]"
      by (subst llx.simps) simp
    have "foldl hexacc a (llx n) = 16 * foldl hexacc a (llx (n div 16)) + n mod 16"
      by (simp add: eq hexacc_hexdigit)
    also have "\<dots> = 16 * (a * 16 ^ length (llx (n div 16)) + n div 16) + n mod 16"
      using 1 [OF False, of a] by simp
    also have "\<dots> = a * 16 ^ length (llx n) + (16 * (n div 16) + n mod 16)"
      by (simp add: eq algebra_simps)
    finally show ?thesis by simp
  qed
qed

lemma foldl_hexacc_zeros: "foldl hexacc 0 (replicate k (CHR ''0'') @ d) = foldl hexacc 0 d"
  by (induction k) (simp_all add: hexacc_def hexval_def)

lemma hexset_props:
  "c \<in> set ''0123456789abcdef'' \<Longrightarrow>
     isxdigit c \<and> c \<noteq> NUL \<and> \<not> isspace c \<and> c \<noteq> CHR ''-'' \<and> c \<noteq> CHR ''+''
       \<and> c \<noteq> CHR ''x'' \<and> c \<noteq> CHR ''X''"
  by (auto simp: isxdigit_def hexval_def NUL_def isspace_def)

lemma fmt_0llx_in: "set (fmt_0llx k v) \<subseteq> set ''0123456789abcdef''"
  using llx_in [of "unat v"] by (auto simp: fmt_0llx_def Let_def)

lemma length_fmt_0llx: "length (fmt_0llx stamplen v) = stamplen"
proof -
  have "unat v < 2 ^ 64" using unsigned_less [of v] by simp
  then have "unat v < 16 ^ 16" by simp
  then have "length (llx (unat v)) \<le> 16" by (intro llx_length) simp_all
  then show ?thesis by (simp add: fmt_0llx_def Let_def stamplen_def)
qed

lemma foldl_hexacc_fmt: "foldl hexacc 0 (fmt_0llx k v) = unat v"
proof -
  have "foldl hexacc 0 (fmt_0llx k v) = foldl hexacc 0 (llx (unat v))"
    unfolding fmt_0llx_def Let_def by (rule foldl_hexacc_zeros)
  then show ?thesis by (simp add: foldl_hexacc_llx)
qed

lemma strtoull16_hex:
  assumes sub: "set s \<subseteq> set ''0123456789abcdef''" and len: "2 \<le> length s"
    and val: "foldl hexacc 0 s < 2 ^ 64"
  shows "strtoull16 s = of_nat (foldl hexacc 0 s)"
proof -
  from len obtain a b r where s: "s = a # b # r"
    by (cases s; cases "tl s") auto
  have all: "\<And>c. c \<in> set s \<Longrightarrow> isxdigit c \<and> c \<noteq> NUL \<and> \<not> isspace c \<and> c \<noteq> CHR ''-''
      \<and> c \<noteq> CHR ''+'' \<and> c \<noteq> CHR ''x'' \<and> c \<noteq> CHR ''X''"
    using sub hexset_props by blast
  have c: "cstr s = s" using all by (intro cstr_noNUL) blast
  have d: "dropWhile isspace s = s" using all [of a] by (simp add: s)
  have sg: "strip_sign s = (False, s)" using all [of a] by (simp add: s strip_sign_def)
  have x: "strip_0x s = s" using all [of b] by (cases r) (simp_all add: s strip_0x_def)
  have t: "takeWhile isxdigit s = s" using all by (simp add: takeWhile_eq_all_conv)
  show ?thesis using val by (simp add: strtoull16_def c d sg x t Let_def)
qed

lemma strtoull16_fmt_0llx: "strtoull16 (fmt_0llx stamplen v) = v"
proof -
  have "unat v < 2 ^ 64" using unsigned_less [of v] by simp
  then have "strtoull16 (fmt_0llx stamplen v) = of_nat (foldl hexacc 0 (fmt_0llx stamplen v))"
    using length_fmt_0llx [of v]
    by (intro strtoull16_hex fmt_0llx_in) (simp_all add: foldl_hexacc_fmt stamplen_def)
  then show ?thesis by (simp add: foldl_hexacc_fmt)
qed

lemma buildtag_split:
  "length (cstr i) \<le> idlen \<Longrightarrow> buildtag i ts = fmt_ljust idlen i @ fmt_0llx stamplen ts"
  by (simp add: buildtag_def snprintf_def taglen_def length_fmt_ljust length_fmt_0llx)

lemma length_buildtag: "length (cstr i) \<le> idlen \<Longrightarrow> length (buildtag i ts) = taglen"
  by (simp add: buildtag_split taglen_def length_fmt_ljust length_fmt_0llx)

lemma take_idlen_buildtag:
  "length (cstr i) \<le> idlen \<Longrightarrow> take idlen (buildtag i ts) = fmt_ljust idlen i"
  by (simp add: buildtag_split length_fmt_ljust)

lemma drop_idlen_buildtag:
  "length (cstr i) \<le> idlen \<Longrightarrow> drop idlen (buildtag i ts) = fmt_0llx stamplen ts"
  by (simp add: buildtag_split length_fmt_ljust)

lemma querytag_buildtag:
  "length (cstr i) \<le> idlen \<Longrightarrow> querytag (buildtag i ts) = (fmt_ljust idlen i, ts)"
  by (simp add: querytag_def take_idlen_buildtag drop_idlen_buildtag length_fmt_0llx
      strtoull16_fmt_0llx)

subsection \<open>Round trip and sentinel\<close>

lemma fmt_ljust_noNUL_eq:
  "NUL \<notin> set i \<Longrightarrow> fmt_ljust n i = i @ replicate (n - length i) (CHR '' '')"
  by (simp add: fmt_ljust_def cstr_noNUL)

lemma fmt_0llx_zero_iff: "fmt_0llx stamplen t = drop idlen freetag \<longleftrightarrow> t = 0"
proof
  assume "fmt_0llx stamplen t = drop idlen freetag"
  then have "strtoull16 (fmt_0llx stamplen t) = strtoull16 (drop idlen freetag)" by simp
  moreover have "strtoull16 (drop idlen freetag) = 0" by code_simp
  ultimately show "t = 0" by (simp add: strtoull16_fmt_0llx)
next
  assume "t = 0"
  moreover have "fmt_0llx stamplen 0 = drop idlen freetag" by code_simp
  ultimately show "fmt_0llx stamplen t = drop idlen freetag" by simp
qed

lemma fmt_ljust_free_iff:
  assumes "NUL \<notin> set i" "length i \<le> idlen"
  shows "fmt_ljust idlen i = take idlen freetag \<longleftrightarrow> i = take idlen freetag"
proof
  assume eq: "fmt_ljust idlen i = take idlen freetag"
  then have a: "i @ replicate (idlen - length i) (CHR '' '') = take idlen freetag"
    using assms by (simp add: fmt_ljust_noNUL_eq)
  have "idlen - length i = 0"
  proof (rule ccontr)
    assume "idlen - length i \<noteq> 0"
    then have "last (i @ replicate (idlen - length i) (CHR '' '')) = CHR '' ''" by simp
    moreover have "last (take idlen freetag) = CHR ''-''" by (simp add: idlen_def freetag_def)
    ultimately show False using a by simp
  qed
  with a show "i = take idlen freetag" by simp
next
  assume "i = take idlen freetag"
  then show "fmt_ljust idlen i = take idlen freetag"
    using assms by (simp add: fmt_ljust_noNUL_eq idlen_def freetag_def)
qed

lemma isfree_freetag: "isfree freetag"
  by (simp add: isfree_def sametag_def)

text \<open>
  C4.  For an identity of at most 16 bytes and any 64-bit \<open>ts\<close>, \<open>querytag\<close> of the tag
  that \<open>buildtag\<close> produces returns the identity as it stands in the tag, still padded
  with spaces to 16 bytes, and the original \<open>ts\<close>.
\<close>

theorem querytag_buildtag_padded:
  "NUL \<notin> set i \<Longrightarrow> length i \<le> idlen \<Longrightarrow>
     querytag (buildtag i ts) = (i @ replicate (idlen - length i) (CHR '' ''), ts)"
  by (simp add: querytag_buildtag cstr_noNUL fmt_ljust_noNUL_eq)

theorem querytag_buildtag_padded_witness:
  "NUL \<notin> set ''host-1'' \<and> length ''host-1'' \<le> idlen \<and>
     querytag (buildtag ''host-1'' 0x5f5e100) = (''host-1          '', 0x5f5e100)"
  using querytag_buildtag_padded [of "''host-1''" "0x5f5e100"]
  by (simp add: NUL_def idlen_def eval_nat_numeral)

theorem querytag_not_stripped_counterexample:
  "length ''A'' \<le> idlen \<and> last ''A'' \<noteq> CHR '' '' \<and>
     fst (querytag (buildtag ''A'' 1)) = ''A               '' \<and>
     fst (querytag (buildtag ''A'' 1)) \<noteq> ''A''"
  by code_simp

text \<open>
  C5.  \<open>isfree\<close> holds of the sentinel; for an identity \<open>i\<close> of at most 16 bytes and a
  timestamp \<open>t\<close>, the tag built from them is free exactly when \<open>i\<close> is the sentinel's
  own identity field \<open>------FREE------\<close> and \<open>t\<close> is zero, so it is not free
  whenever \<open>i\<close> differs from that field or \<open>t\<close> is non-zero; in particular it is
  never free for an identity that \<open>validate_id\<close> accepts.
\<close>

theorem isfree_buildtag:
  "NUL \<notin> set i \<Longrightarrow> length i \<le> idlen \<Longrightarrow>
     isfree freetag \<and> (isfree (buildtag i t) \<longleftrightarrow> i = take idlen freetag \<and> t = 0)
       \<and> (validate_id i \<longrightarrow> \<not> isfree (buildtag i t))"
proof -
  assume i: "NUL \<notin> set i" "length i \<le> idlen"
  then have len: "length (cstr i) \<le> idlen" by (simp add: cstr_noNUL)
  have ft: "take taglen freetag = freetag"
    by (simp add: taglen_def idlen_def stamplen_def freetag_def)
  have "isfree (buildtag i t) \<longleftrightarrow> buildtag i t = freetag"
    using length_buildtag [OF len, of t] by (simp add: isfree_def sametag_def ft)
  also have "\<dots> \<longleftrightarrow>
          fmt_ljust idlen i @ fmt_0llx stamplen t = take idlen freetag @ drop idlen freetag"
    by (simp add: buildtag_split [OF len])
  also have "\<dots> \<longleftrightarrow> fmt_ljust idlen i = take idlen freetag
                      \<and> fmt_0llx stamplen t = drop idlen freetag"
  proof -
    have "length (fmt_ljust idlen i) = length (take idlen freetag)"
      using length_fmt_ljust [OF len] by (simp add: idlen_def freetag_def)
    then show ?thesis by (metis append_eq_append_conv)
  qed
  also have "\<dots> \<longleftrightarrow> i = take idlen freetag \<and> t = 0"
    using fmt_ljust_free_iff [OF i] fmt_0llx_zero_iff by simp
  finally have iff: "isfree (buildtag i t) \<longleftrightarrow> i = take idlen freetag \<and> t = 0" .
  have "cstr freetag = freetag"
    by (rule cstr_noNUL) (simp add: freetag_def NUL_def)
  then have "validate_id i \<longrightarrow> i \<noteq> take idlen freetag"
    using i by (simp add: validate_id_def cstr_noNUL)
  with iff show ?thesis using isfree_freetag by simp
qed

theorem isfree_buildtag_witness:
  "NUL \<notin> set ''host-1'' \<and> length ''host-1'' \<le> idlen \<and> validate_id ''host-1''
     \<and> isfree freetag \<and> \<not> isfree (buildtag ''host-1'' 0)"
  using isfree_buildtag [of "''host-1''" 0]
  by (simp add: NUL_def idlen_def freetag_def validate_id_def cstr_def)

theorem isfree_buildtag_counterexample:
  "''------FREE------'' \<noteq> [] \<and> isfree (buildtag ''------FREE------'' 0)"
  by code_simp

section \<open>Properties of the timed sector I/O\<close>

lemma pwrite_eq:
  "pwrite e w =
     (let n = min (nat (ret e)) (min 512 (length (iobuf w)));
          w1 = w\<lparr>clock := clock w + dur e\<rparr>
      in if ret e < 0 then (- 1, w1\<lparr>errno := err e\<rparr>)
         else (int n, w1\<lparr>disk := take n (iobuf w) @ drop n (disk w)\<rparr>))"
  by (simp add: pwrite_def Let_def)

lemma pwrite_upd:
  assumes "0 \<le> ret e" and "n = min (nat (ret e)) (min 512 (length b))"
  shows "pwrite e (w\<lparr>iobuf := b\<rparr>) =
           (int n, w\<lparr>iobuf := b, clock := clock w + dur e, disk := take n b @ drop n (disk w)\<rparr>)"
  using assms by (simp add: pwrite_eq Let_def)

lemma pread_eq:
  "pread e w =
     (let n = min (nat (ret e)) (min 512 (length (disk w)));
          w1 = w\<lparr>clock := clock w + dur e\<rparr>
      in if ret e < 0 then (- 1, w1\<lparr>errno := err e\<rparr>)
         else (int n, w1\<lparr>iobuf := take n (disk w) @ drop n (iobuf w)\<rparr>))"
  by (simp add: pread_def Let_def)

lemma pread_ok:
  assumes "0 \<le> ret e" and "n = min (nat (ret e)) (min 512 (length (disk w)))"
  shows "pread e w =
           (int n, w\<lparr>clock := clock w + dur e, iobuf := take n (disk w) @ drop n (iobuf w)\<rparr>)"
  using assms by (simp add: pread_eq Let_def)

lemma pread_fail:
  "ret e < 0 \<Longrightarrow> pread e w = (- 1, w\<lparr>clock := clock w + dur e, errno := err e\<rparr>)"
  by (simp add: pread_eq Let_def)

lemma fst_withintimelimits_world:
  "fst (withintimelimits p a b w) = fst (withintimelimits p a b w')"
  by (simp add: withintimelimits_def Let_def)


lemma over_limit_eq:
  "over_limit p limit a b w =
     (limit \<and> \<not> fst (withintimelimits p a b w),
      if limit \<and> \<not> fst (withintimelimits p a b w) then w\<lparr>errno := - ETIMEDOUT\<rparr> else w)"
  by (simp add: over_limit_def withintimelimits_def Let_def)

lemma gettimeofday_upd [simp]:
  "gettimeofday (w\<lparr>iobuf := b\<rparr>) = gettimeofday w"
  "gettimeofday (w\<lparr>disk := d\<rparr>) = gettimeofday w"
  "gettimeofday (w\<lparr>errno := x\<rparr>) = gettimeofday w"
  by (simp_all add: gettimeofday_def)

lemma writetag_unfold:
  assumes "pwrite e (w\<lparr>iobuf := take taglen tag @ drop taglen (iobuf w)\<rparr>) = (int n, w1)"
  shows "writetag p e tag limit w =
      (if n < taglen then (- 1, w1)
       else if limit \<and> \<not> fst (withintimelimits p (gettimeofday w) (gettimeofday w1) w1)
       then (- 1, w1\<lparr>errno := - ETIMEDOUT\<rparr>)
       else (0, w1))"
proof (cases "n < taglen")
  case True
  then show ?thesis
    by (simp add: writetag_def Let_def assms)
next
  case False
  then show ?thesis
    by (simp add: writetag_def Let_def assms over_limit_eq)
qed


lemma writetag_fail:
  "ret e < 0 \<Longrightarrow>
   writetag p e tag limit w =
     (- 1, w\<lparr>iobuf := take taglen tag @ drop taglen (iobuf w),
             clock := clock w + dur e, errno := err e\<rparr>)"
  by (simp add: writetag_def pwrite_def Let_def)

lemma readtag_unfold:
  assumes "pread e w = (r, w1)"
  shows "readtag p e tag limit w =
      (if r \<le> 0 then (- 1, tag, w1)
       else if limit \<and> \<not> fst (withintimelimits p (gettimeofday w) (gettimeofday w1) w1)
       then (- 1, tag, w1\<lparr>errno := - ETIMEDOUT\<rparr>)
       else (r, take taglen (iobuf w1), w1))"
proof (cases "r \<le> 0")
  case True
  then show ?thesis
    by (simp add: readtag_def Let_def assms)
next
  case False
  then show ?thesis
    by (simp add: readtag_def Let_def assms over_limit_eq)
qed

lemma writetag_ok:
  assumes "0 \<le> ret e"
    and "b = take taglen tag @ drop taglen (iobuf w)"
    and "n = min (nat (ret e)) (min 512 (length b))"
    and "w1 = w\<lparr>iobuf := b, clock := clock w + dur e, disk := take n b @ drop n (disk w)\<rparr>"
  shows "writetag p e tag limit w =
      (if n < taglen then (- 1, w1)
       else if limit \<and> \<not> fst (withintimelimits p (gettimeofday w) (gettimeofday w1) w1)
       then (- 1, w1\<lparr>errno := - ETIMEDOUT\<rparr>)
       else (0, w1))"
proof -
  have "pwrite e (w\<lparr>iobuf := take taglen tag @ drop taglen (iobuf w)\<rparr>) = (int n, w1)"
    unfolding assms(2) [symmetric] assms(4) using assms(1,3) by (rule pwrite_upd)
  then show ?thesis by (rule writetag_unfold)
qed

lemma gettimeofday_clock: "clock w = clock w' \<Longrightarrow> gettimeofday w = gettimeofday w'"
  by (simp add: gettimeofday_def)

lemma fst_writetag:
  assumes "length (iobuf w) = 512"
  shows "fst (writetag p e tag limit w) =
           (if ret e < int taglen then - 1
            else if limit \<and> \<not> fst (withintimelimits p (gettimeofday w)
                                     (gettimeofday (w\<lparr>clock := clock w + dur e\<rparr>)) w)
            then - 1 else 0)"
proof (cases "ret e < 0")
  case True
  then show ?thesis by (simp add: writetag_fail)
next
  case False
  define b where "b = take taglen tag @ drop taglen (iobuf w)"
  define n where "n = min (nat (ret e)) (min 512 (length b))"
  define w1 where
    "w1 = w\<lparr>iobuf := b, clock := clock w + dur e, disk := take n b @ drop n (disk w)\<rparr>"
  from False have ok: "0 \<le> ret e" by simp
  have "480 \<le> length b" using assms by (simp add: b_def taglen_def idlen_def stamplen_def)
  then have n: "n < taglen \<longleftrightarrow> ret e < int taglen"
    using ok by (auto simp: n_def taglen_def idlen_def stamplen_def)
  have g: "gettimeofday w1 = gettimeofday (w\<lparr>clock := clock w + dur e\<rparr>)"
    by (rule gettimeofday_clock) (simp add: w1_def)
  have t: "fst (withintimelimits p (gettimeofday w) (gettimeofday w1) w1) =
           fst (withintimelimits p (gettimeofday w)
                  (gettimeofday (w\<lparr>clock := clock w + dur e\<rparr>)) w)"
    unfolding g by (rule fst_withintimelimits_world)
  show ?thesis
    unfolding writetag_ok [OF ok b_def n_def w1_def] n t by simp
qed

text \<open>
  C7.  \<open>writetag\<close> returns -1 when \<open>pwrite\<close> fails or transfers fewer than \<open>taglen\<close>
  (32) bytes, and also when the call is time-limited and \<open>withintimelimits\<close> finds the
  limit breached: \<open>op_max_ms\<close> is positive and the clock readings taken before and after
  the write, each cut to whole milliseconds by \<open>tv2msec\<close>, differ by more than
  \<open>op_max_ms\<close>.  Otherwise it returns 0.  So a short write of 32 to 511 bytes is a
  success, and whether a write that lasts a fraction of a millisecond more than
  \<open>op_max_ms\<close> fails depends on where in the millisecond it starts.
\<close>

theorem writetag_result:
  assumes "length (iobuf w) = 512"
  shows "fst (writetag p e tag limit w) =
           (if ret e < int taglen then - 1
            else if limit \<and> \<not> fst (withintimelimits p (gettimeofday w)
                                     (gettimeofday (w\<lparr>clock := clock w + dur e\<rparr>)) w)
            then - 1 else 0)
       \<and> fst (writetag p e tag limit w) =
           (if ret e < int taglen then - 1
            else if limit \<and> \<not> op_max_ms p \<le>s 0
                    \<and> op_max_ms p < tv2msec (gettimeofday (w\<lparr>clock := clock w + dur e\<rparr>))
                                       - tv2msec (gettimeofday w)
            then - 1 else 0)"
proof -
  have "fst (withintimelimits p (gettimeofday w)
               (gettimeofday (w\<lparr>clock := clock w + dur e\<rparr>)) w) =
        (op_max_ms p \<le>s 0
          \<or> \<not> op_max_ms p < tv2msec (gettimeofday (w\<lparr>clock := clock w + dur e\<rparr>))
                                 - tv2msec (gettimeofday w))"
    by (simp add: withintimelimits_def Let_def)
  then show ?thesis
    using fst_writetag [OF assms, of p e tag limit] by simp
qed

theorem writetag_result_witness:
  "length (iobuf (init_world (replicate 512 NUL) 0)) = 512
   \<and> fst (writetag \<lparr>lease_ms = 60000, op_max_ms = 5000\<rparr> \<lparr>ret = 31, dur = 1000, err = 0\<rparr>
          freetag True (init_world (replicate 512 NUL) 0)) = - 1
   \<and> fst (writetag \<lparr>lease_ms = 60000, op_max_ms = 5000\<rparr> \<lparr>ret = 512, dur = 5000999, err = 0\<rparr>
          freetag True (init_world (replicate 512 NUL) 0)) = 0
   \<and> length (iobuf (init_world (replicate 512 NUL) 999)) = 512
   \<and> fst (writetag \<lparr>lease_ms = 60000, op_max_ms = 5000\<rparr> \<lparr>ret = 512, dur = 5000001, err = 0\<rparr>
          freetag True (init_world (replicate 512 NUL) 999)) = - 1"
proof -
  have l: "length (iobuf (init_world (replicate 512 NUL) c)) = 512" for c
    by (simp add: init_world_def)
  have a: "fst (writetag \<lparr>lease_ms = 60000, op_max_ms = 5000\<rparr> \<lparr>ret = 31, dur = 1000, err = 0\<rparr>
          freetag True (init_world (replicate 512 NUL) 0)) = - 1"
    using writetag_result [OF l, of "\<lparr>lease_ms = 60000, op_max_ms = 5000\<rparr>"
        "\<lparr>ret = 31, dur = 1000, err = 0\<rparr>" freetag True 0]
    by (simp add: taglen_def idlen_def stamplen_def)
  have b: "fst (writetag \<lparr>lease_ms = 60000, op_max_ms = 5000\<rparr>
          \<lparr>ret = 512, dur = 5000999, err = 0\<rparr>
          freetag True (init_world (replicate 512 NUL) 0)) = 0"
    using writetag_result [OF l, of "\<lparr>lease_ms = 60000, op_max_ms = 5000\<rparr>"
        "\<lparr>ret = 512, dur = 5000999, err = 0\<rparr>" freetag True 0]
    by (simp add: init_world_def taglen_def idlen_def stamplen_def
        gettimeofday_def tv2msec_def c_div_def signed_divide_int_def word_sle_eq)
  have c: "fst (writetag \<lparr>lease_ms = 60000, op_max_ms = 5000\<rparr>
          \<lparr>ret = 512, dur = 5000001, err = 0\<rparr>
          freetag True (init_world (replicate 512 NUL) 999)) = - 1"
    using writetag_result [OF l, of "\<lparr>lease_ms = 60000, op_max_ms = 5000\<rparr>"
        "\<lparr>ret = 512, dur = 5000001, err = 0\<rparr>" freetag True 999]
    by (simp add: init_world_def taglen_def idlen_def stamplen_def
        gettimeofday_def tv2msec_def c_div_def signed_divide_int_def word_sle_eq)
  show ?thesis using l a b c by simp
qed

theorem writetag_short_write_counterexample:
  "ret \<lparr>ret = 100, dur = 1000, err = 0\<rparr> < 512 \<and>
   fst (writetag \<lparr>lease_ms = 60000, op_max_ms = 5000\<rparr> \<lparr>ret = 100, dur = 1000, err = 0\<rparr>
          freetag True (init_world (replicate 512 NUL) 0)) = 0"
  using fst_writetag [of "init_world (replicate 512 NUL) 0"
      "\<lparr>lease_ms = 60000, op_max_ms = 5000\<rparr>" "\<lparr>ret = 100, dur = 1000, err = 0\<rparr>" freetag True]
  by (simp add: init_world_def taglen_def idlen_def stamplen_def withintimelimits_def
      gettimeofday_def tv2msec_def c_div_def signed_divide_int_def word_sle_eq)

lemma readtag_nolimit:
  assumes "0 \<le> ret e" and "n = min (nat (ret e)) (min 512 (length (disk w)))"
    and "w1 = w\<lparr>clock := clock w + dur e, iobuf := take n (disk w) @ drop n (iobuf w)\<rparr>"
  shows "readtag p e tag False w =
           (if n = 0 then (- 1, tag, w1) else (int n, take taglen (iobuf w1), w1))"
proof -
  have "pread e w = (int n, w1)"
    unfolding assms(3) using assms(1,2) by (rule pread_ok)
  then have "readtag p e tag False w =
      (if int n \<le> 0 then (- 1, tag, w1)
       else if False \<and> \<not> fst (withintimelimits p (gettimeofday w) (gettimeofday w1) w1)
       then (- 1, tag, w1\<lparr>errno := - ETIMEDOUT\<rparr>)
       else (int n, take taglen (iobuf w1), w1))"
    by (rule readtag_unfold)
  then show ?thesis by simp
qed

lemma readtag_fail:
  "ret e < 0 \<Longrightarrow>
   readtag p e tag limit w = (- 1, tag, w\<lparr>clock := clock w + dur e, errno := err e\<rparr>)"
  using readtag_unfold [OF pread_fail, of e p tag limit w] by simp

lemma readtag_full:
  assumes "512 \<le> ret e" "length (disk w) = 512" "length (iobuf w) = 512"
  shows "readtag p e tag False w =
           (512, take taglen (disk w), w\<lparr>clock := clock w + dur e, iobuf := disk w\<rparr>)"
proof -
  have n: "512 = min (nat (ret e)) (min 512 (length (disk w)))"
    using assms by simp
  have ok: "0 \<le> ret e" using assms by simp
  have w1: "w\<lparr>clock := clock w + dur e, iobuf := disk w\<rparr> =
        w\<lparr>clock := clock w + dur e, iobuf := take 512 (disk w) @ drop 512 (iobuf w)\<rparr>"
    using assms by simp
  show ?thesis
    using readtag_nolimit [OF ok n w1, of p tag] by simp
qed

lemma release_unfold:
  assumes "readtag p (rd e) (replicate taglen NUL) False w = (r, cur, w1)"
  shows "release p e ident False w =
     (if r < 0 then (- errno w1, w1)
      else if \<not> sameid cur ident then (0, w1)
      else (if fst (writetag p (wr e) freetag False w1) < 0 then - 1 else 1,
            snd (writetag p (wr e) freetag False w1)))"
  by (simp add: release_def assms Let_def split_beta)

lemma release_force:
  "release p e ident True w =
     (if fst (writetag p (wr e) freetag False w) < 0 then - 1 else 1,
      snd (writetag p (wr e) freetag False w))"
  by (simp add: release_def Let_def split_beta)

lemma writetag_full:
  assumes "512 \<le> ret e" "length tag = taglen" "length (iobuf w) = 512" "length (disk w) = 512"
  shows "writetag p e tag False w =
           (0, w\<lparr>iobuf := tag @ drop taglen (iobuf w), clock := clock w + dur e,
                  disk := tag @ drop taglen (iobuf w)\<rparr>)"
proof -
  have ok: "0 \<le> ret e" using assms by simp
  have b: "tag @ drop taglen (iobuf w) = take taglen tag @ drop taglen (iobuf w)"
    using assms by simp
  have len: "length (tag @ drop taglen (iobuf w)) = 512"
    using assms by (simp add: taglen_def idlen_def stamplen_def)
  have n: "512 = min (nat (ret e)) (min 512 (length (tag @ drop taglen (iobuf w))))"
    using assms(1) len by simp
  have w1: "w\<lparr>iobuf := tag @ drop taglen (iobuf w), clock := clock w + dur e,
                  disk := tag @ drop taglen (iobuf w)\<rparr> =
            w\<lparr>iobuf := tag @ drop taglen (iobuf w), clock := clock w + dur e,
                  disk := take 512 (tag @ drop taglen (iobuf w)) @ drop 512 (disk w)\<rparr>"
    using len assms(4) by simp
  show ?thesis
    using writetag_ok [OF ok b n w1, of p False]
    by (simp add: taglen_def idlen_def stamplen_def)
qed

lemma readtag_world:
  "iobuf (snd (snd (readtag p e tag limit w))) =
     take (min (nat (ret e)) (min 512 (length (disk w)))) (disk w)
       @ drop (min (nat (ret e)) (min 512 (length (disk w)))) (iobuf w)"
  "disk (snd (snd (readtag p e tag limit w))) = disk w"
proof -
  define m where "m = min (nat (ret e)) (min 512 (length (disk w)))"
  have "iobuf (snd (snd (readtag p e tag limit w))) = take m (disk w) @ drop m (iobuf w)
      \<and> disk (snd (snd (readtag p e tag limit w))) = disk w"
  proof (cases "ret e < 0")
    case True
    then have "m = 0" by (simp add: m_def)
    with True show ?thesis by (simp add: readtag_fail)
  next
    case False
    then have ok: "0 \<le> ret e" by simp
    show ?thesis
      by (simp add: readtag_unfold [OF pread_ok [OF ok m_def]])
  qed
  then show "iobuf (snd (snd (readtag p e tag limit w))) =
     take (min (nat (ret e)) (min 512 (length (disk w)))) (disk w)
       @ drop (min (nat (ret e)) (min 512 (length (disk w)))) (iobuf w)"
    and "disk (snd (snd (readtag p e tag limit w))) = disk w"
    by (simp_all add: m_def)
qed

lemma writetag_world:
  assumes "b = take taglen tag @ drop taglen (iobuf w)"
    and "n = min (nat (ret e)) (min 512 (length b))"
  shows "iobuf (snd (writetag p e tag limit w)) = b"
    and "disk (snd (writetag p e tag limit w)) = take n b @ drop n (disk w)"
proof -
  have "iobuf (snd (writetag p e tag limit w)) = b
      \<and> disk (snd (writetag p e tag limit w)) = take n b @ drop n (disk w)"
  proof (cases "ret e < 0")
    case True
    then have "n = 0" by (simp add: assms(2))
    with True show ?thesis by (simp add: writetag_fail assms(1))
  next
    case False
    then have ok: "0 \<le> ret e" by simp
    define w1 where
      "w1 = w\<lparr>iobuf := b, clock := clock w + dur e, disk := take n b @ drop n (disk w)\<rparr>"
    show ?thesis
      unfolding writetag_ok [OF ok assms w1_def] by (simp add: w1_def)
  qed
  then show "iobuf (snd (writetag p e tag limit w)) = b"
    and "disk (snd (writetag p e tag limit w)) = take n b @ drop n (disk w)"
    by simp_all
qed

text \<open>
  C6.  \<open>writetag\<close> hands \<open>pwrite\<close> the whole 512-byte I/O buffer with the tag in bytes
  0 to 31 and, in bytes 32 to 511, what the buffer held before the call; the first \<open>n\<close>
  bytes of it reach the sector, \<open>n\<close> being the count \<open>pwrite\<close> returns (none when it
  fails).  The buffer is zero after \<open>main\<close> has cleared it.  A \<open>readtag\<close> whose
  \<open>pread\<close> returns \<open>m\<close> bytes puts the first \<open>m\<close> bytes of the sector over the first
  \<open>m\<close> bytes of the buffer and leaves the others (a failed \<open>pread\<close> leaves all).  So a
  write that follows a read hands over, after the tag, the sector's own bytes up to
  \<open>m\<close> and the buffer's earlier bytes from \<open>m\<close> on.
\<close>

theorem writetag_sector:
  assumes "length tag = taglen" "length (iobuf w) = 512" "length (disk w) = 512"
    and "m = min (nat (ret er)) 512" "n = min (nat (ret ew)) 512"
    and "w1 = snd (snd (readtag p er tag' limit' w))"
  shows "iobuf (snd (writetag p ew tag limit w)) = tag @ drop taglen (iobuf w)
       \<and> disk (snd (writetag p ew tag limit w)) =
           take n (tag @ drop taglen (iobuf w)) @ drop n (disk w)
       \<and> iobuf w1 = take m (disk w) @ drop m (iobuf w)
       \<and> disk w1 = disk w
       \<and> iobuf (snd (writetag p ew tag limit w1)) =
           tag @ drop taglen (take m (disk w) @ drop m (iobuf w))
       \<and> disk (snd (writetag p ew tag limit w1)) =
           take n (tag @ drop taglen (take m (disk w) @ drop m (iobuf w))) @ drop n (disk w)
       \<and> iobuf (init_world d c) = replicate 512 NUL"
proof -
  have b: "tag @ drop taglen (iobuf w) = take taglen tag @ drop taglen (iobuf w)"
    using assms(1) by simp
  have lb: "length (tag @ drop taglen (iobuf w)) = 512"
    using assms(1,2) by (simp add: taglen_def idlen_def stamplen_def)
  have n: "n = min (nat (ret ew)) (min 512 (length (tag @ drop taglen (iobuf w))))"
    using assms(5) lb by simp
  have i1: "iobuf w1 = take m (disk w) @ drop m (iobuf w)"
    using assms(3,4) by (simp add: assms(6) readtag_world)
  have d1: "disk w1 = disk w"
    by (simp add: assms(6) readtag_world)
  have l1: "length (iobuf w1) = 512"
    using assms(2,3,4) by (simp add: i1)
  have b1: "tag @ drop taglen (iobuf w1) = take taglen tag @ drop taglen (iobuf w1)"
    using assms(1) by simp
  have lb1: "length (tag @ drop taglen (iobuf w1)) = 512"
    using assms(1) l1 by (simp add: taglen_def idlen_def stamplen_def)
  have n1: "n = min (nat (ret ew)) (min 512 (length (tag @ drop taglen (iobuf w1))))"
    using assms(5) lb1 by simp
  show ?thesis
    using writetag_world [OF b n, of p limit] writetag_world [OF b1 n1, of p limit] i1 d1
    by (simp add: init_world_def)
qed

theorem writetag_sector_witness:
  "length freetag = taglen
   \<and> length (iobuf (init_world (''A               0000000000000001'' @ replicate 480 (CHR ''X'')) 0))
       = 512
   \<and> length (disk (init_world (''A               0000000000000001'' @ replicate 480 (CHR ''X'')) 0))
       = 512
   \<and> (40 :: nat) = min (nat (ret \<lparr>ret = 40, dur = 1000, err = 0\<rparr>)) 512
   \<and> (512 :: nat) = min (nat (ret \<lparr>ret = 512, dur = 1000, err = 0\<rparr>)) 512
   \<and> disk (snd (writetag \<lparr>lease_ms = 0, op_max_ms = 0\<rparr> \<lparr>ret = 512, dur = 1000, err = 0\<rparr>
        freetag False
        (snd (snd (readtag \<lparr>lease_ms = 0, op_max_ms = 0\<rparr> \<lparr>ret = 40, dur = 1000, err = 0\<rparr>
           (replicate taglen NUL) False
           (init_world (''A               0000000000000001'' @ replicate 480 (CHR ''X'')) 0))))))
       = freetag @ replicate 8 (CHR ''X'') @ replicate 472 NUL"
proof -
  define w where
    "w = init_world (''A               0000000000000001'' @ replicate 480 (CHR ''X'')) 0"
  have lt: "length freetag = taglen"
    by (simp add: freetag_def taglen_def idlen_def stamplen_def)
  have li: "length (iobuf w) = 512" and ld: "length (disk w) = 512"
    by (simp_all add: w_def init_world_def)
  have m: "(40 :: nat) = min (nat (ret \<lparr>ret = 40, dur = 1000, err = 0\<rparr>)) 512" by simp
  have n: "(512 :: nat) = min (nat (ret \<lparr>ret = 512, dur = 1000, err = 0\<rparr>)) 512" by simp
  have tl: "drop taglen (take 40 (disk w) @ drop 40 (iobuf w))
              = replicate 8 (CHR ''X'') @ replicate 472 NUL"
    by (simp add: w_def init_world_def taglen_def idlen_def stamplen_def)
  have "disk (snd (writetag \<lparr>lease_ms = 0, op_max_ms = 0\<rparr> \<lparr>ret = 512, dur = 1000, err = 0\<rparr>
        freetag False
        (snd (snd (readtag \<lparr>lease_ms = 0, op_max_ms = 0\<rparr> \<lparr>ret = 40, dur = 1000, err = 0\<rparr>
           (replicate taglen NUL) False w)))))
       = take 512 (freetag @ drop taglen (take 40 (disk w) @ drop 40 (iobuf w)))
           @ drop 512 (disk w)"
    using writetag_sector [OF lt li ld m n refl] by blast
  then show ?thesis
    using lt li ld m n unfolding tl w_def [symmetric]
    by (simp add: freetag_def)
qed

theorem writetag_tail_counterexample:
  "fst (release \<lparr>lease_ms = 60000, op_max_ms = 5000\<rparr>
          \<lparr>sigaction_ok = True, rd = \<lparr>ret = 512, dur = 1000, err = 0\<rparr>,
            wr = \<lparr>ret = 512, dur = 1000, err = 0\<rparr>\<rparr>
          ''A'' False
          (init_world (''A               0000000000000001'' @ replicate 480 (CHR ''X'')) 0)) = 1
   \<and> disk (snd (release \<lparr>lease_ms = 60000, op_max_ms = 5000\<rparr>
          \<lparr>sigaction_ok = True, rd = \<lparr>ret = 512, dur = 1000, err = 0\<rparr>,
            wr = \<lparr>ret = 512, dur = 1000, err = 0\<rparr>\<rparr>
          ''A'' False
          (init_world (''A               0000000000000001'' @ replicate 480 (CHR ''X'')) 0)))
       = freetag @ replicate 480 (CHR ''X'')
   \<and> CHR ''X'' \<noteq> NUL"
proof -
  define d where "d = ''A               0000000000000001'' @ replicate 480 (CHR ''X'')"
  define io1 where "io1 = \<lparr>ret = 512, dur = 1000, err = 0\<rparr>"
  define e where "e = \<lparr>sigaction_ok = True, rd = io1, wr = io1\<rparr>"
  define p where "p = \<lparr>lease_ms = 60000, op_max_ms = 5000\<rparr>"
  define w0 where "w0 = init_world d 0"
  define w1 where "w1 = w0\<lparr>clock := clock w0 + dur (rd e), iobuf := disk w0\<rparr>"
  have l: "length d = 512" by (simp add: d_def)
  have t: "take taglen d = ''A               0000000000000001''"
    by (simp add: d_def taglen_def idlen_def stamplen_def)
  have r: "readtag p (rd e) (replicate taglen NUL) False w0 = (512, take taglen (disk w0), w1)"
    unfolding w1_def
    by (rule readtag_full) (simp_all add: e_def io1_def w0_def init_world_def l)
  have s: "sameid ''A               0000000000000001'' ''A''" by code_simp
  have wr: "writetag p (wr e) freetag False w1 =
      (0, w1\<lparr>iobuf := freetag @ drop taglen (iobuf w1), clock := clock w1 + dur (wr e),
                  disk := freetag @ drop taglen (iobuf w1)\<rparr>)"
    by (rule writetag_full) (simp_all add: e_def io1_def w1_def w0_def init_world_def l
        freetag_def taglen_def idlen_def stamplen_def)
  have dr: "drop taglen d = replicate 480 (CHR ''X'')"
    by (simp add: d_def taglen_def idlen_def stamplen_def)
  have "release p e ''A'' False w0 =
      (1, w1\<lparr>iobuf := freetag @ drop taglen (iobuf w1), clock := clock w1 + dur (wr e),
                  disk := freetag @ drop taglen (iobuf w1)\<rparr>)"
    unfolding release_unfold [OF r] wr using s t by (simp add: w0_def init_world_def)
  then show ?thesis
    unfolding d_def [symmetric] io1_def [symmetric] e_def [symmetric] p_def [symmetric]
      w0_def [symmetric]
    by (simp add: w1_def w0_def init_world_def dr NUL_def)
qed

section \<open>Properties of release\<close>

lemma length_snprintf_id: "length (snprintf (idlen + 1) (fmt_ljust idlen ident)) = idlen"
  by (simp add: snprintf_def fmt_ljust_def)

lemma snprintf_id_noNUL: "NUL \<notin> set (snprintf (idlen + 1) (fmt_ljust idlen ident))"
  using fmt_ljust_noNUL [of idlen ident] by (auto simp: snprintf_def dest: in_set_takeD)

lemma sameid_take: "idlen \<le> n \<Longrightarrow> sameid (take n d) ident = sameid d ident"
  by (simp add: sameid_def min_def)

lemma sameid_partial:
  assumes "length d = 512" "\<not> sameid d ident"
  shows "\<not> sameid (take taglen (take n d @ drop n (replicate 512 NUL))) ident"
proof (cases "idlen \<le> n")
  case True
  then have "take idlen (take taglen (take n d @ drop n (replicate 512 NUL))) = take idlen d"
    using assms(1) by (simp add: taglen_def idlen_def stamplen_def min_def)
  then show ?thesis using assms(2) by (simp add: sameid_def)
next
  case False
  then have n: "n < idlen" by simp
  have "take idlen (take taglen (take n d @ drop n (replicate 512 NUL))) ! n = NUL"
    using n assms(1) by (simp add: taglen_def idlen_def stamplen_def nth_append)
  moreover have "snprintf (idlen + 1) (fmt_ljust idlen ident) ! n \<noteq> NUL"
    using n snprintf_id_noNUL [of ident] length_snprintf_id [of ident]
    by (metis nth_mem)
  ultimately show ?thesis by (auto simp: sameid_def)
qed

lemma release_mismatch_disk:
  assumes "length (disk w) = 512" "iobuf w = replicate 512 NUL" "\<not> sameid (disk w) ident"
  shows "disk (snd (release p e ident False w)) = disk w"
proof (cases "ret (rd e) < 0")
  case True
  show ?thesis
    unfolding release_unfold [OF readtag_fail [OF True]] by simp
next
  case False
  define n where "n = min (nat (ret (rd e))) (min 512 (length (disk w)))"
  define w1 where "w1 = w\<lparr>clock := clock w + dur (rd e),
                          iobuf := take n (disk w) @ drop n (iobuf w)\<rparr>"
  from False have ok: "0 \<le> ret (rd e)" by simp
  have ns: "\<not> sameid (take taglen (iobuf w1)) ident"
    using sameid_partial [OF assms(1,3), of n] by (simp add: w1_def assms(2))
  show ?thesis
  proof (cases "n = 0")
    case True
    then have "readtag p (rd e) (replicate taglen NUL) False w = (- 1, replicate taglen NUL, w1)"
      using readtag_nolimit [OF ok n_def w1_def, of p "replicate taglen NUL"] by simp
    then have "release p e ident False w = (- errno w1, w1)"
      by (simp add: release_unfold)
    then show ?thesis by (simp add: w1_def)
  next
    case False
    then have "readtag p (rd e) (replicate taglen NUL) False w =
                 (int n, take taglen (iobuf w1), w1)"
      using readtag_nolimit [OF ok n_def w1_def, of p "replicate taglen NUL"] by simp
    then have "release p e ident False w = (0, w1)"
      using ns by (simp add: release_unfold)
    then show ?thesis by (simp add: w1_def)
  qed
qed

lemma release_mismatch_result:
  assumes "length (disk w) = 512" "iobuf w = replicate 512 NUL" "\<not> sameid (disk w) ident"
    "0 < ret (rd e)"
  shows "fst (release p e ident False w) = 0"
proof -
  define n where "n = min (nat (ret (rd e))) (min 512 (length (disk w)))"
  define w1 where "w1 = w\<lparr>clock := clock w + dur (rd e),
                          iobuf := take n (disk w) @ drop n (iobuf w)\<rparr>"
  from assms(4) have ok: "0 \<le> ret (rd e)" by simp
  have n: "n \<noteq> 0" using assms(1,4) by (simp add: n_def)
  have ns: "\<not> sameid (take taglen (iobuf w1)) ident"
    using sameid_partial [OF assms(1,3), of n] by (simp add: w1_def assms(2))
  have "readtag p (rd e) (replicate taglen NUL) False w =
          (int n, take taglen (iobuf w1), w1)"
    using readtag_nolimit [OF ok n_def w1_def, of p "replicate taglen NUL"] n by simp
  then have "release p e ident False w = (0, w1)"
    using ns by (simp add: release_unfold)
  then show ?thesis by simp
qed

text \<open>
  C8.  \<open>release\<close> without force, run on a sector whose identity field does not match the
  caller's identity (with the buffer as \<open>main\<close> cleared it), leaves the sector as it
  was, and when the read returns data it returns 0, not-held.
\<close>

theorem release_not_held:
  assumes "length (disk w) = 512" "iobuf w = replicate 512 NUL" "\<not> sameid (disk w) ident"
  shows "disk (snd (release p e ident False w)) = disk w
       \<and> (0 < ret (rd e) \<longrightarrow> fst (release p e ident False w) = 0)"
  using release_mismatch_disk [OF assms] release_mismatch_result [OF assms] by simp


theorem release_not_held_witness:
  "length (disk (init_world (''B               0000000000000001'' @ replicate 480 NUL) 0)) = 512
   \<and> iobuf (init_world (''B               0000000000000001'' @ replicate 480 NUL) 0)
       = replicate 512 NUL
   \<and> \<not> sameid (disk (init_world (''B               0000000000000001'' @ replicate 480 NUL) 0)) ''A''
   \<and> 0 < ret (rd \<lparr>sigaction_ok = True, rd = \<lparr>ret = 512, dur = 1000, err = 0\<rparr>,
                     wr = \<lparr>ret = 512, dur = 1000, err = 0\<rparr>\<rparr>)
   \<and> disk (snd (release \<lparr>lease_ms = 0, op_max_ms = 0\<rparr>
          \<lparr>sigaction_ok = True, rd = \<lparr>ret = 512, dur = 1000, err = 0\<rparr>,
            wr = \<lparr>ret = 512, dur = 1000, err = 0\<rparr>\<rparr> ''A'' False
          (init_world (''B               0000000000000001'' @ replicate 480 NUL) 0)))
       = ''B               0000000000000001'' @ replicate 480 NUL
   \<and> fst (release \<lparr>lease_ms = 0, op_max_ms = 0\<rparr>
          \<lparr>sigaction_ok = True, rd = \<lparr>ret = 512, dur = 1000, err = 0\<rparr>,
            wr = \<lparr>ret = 512, dur = 1000, err = 0\<rparr>\<rparr> ''A'' False
          (init_world (''B               0000000000000001'' @ replicate 480 NUL) 0)) = 0"
proof -
  have ns: "\<not> sameid (''B               0000000000000001'' @ replicate 480 NUL) ''A''"
    by (simp add: sameid_def idlen_def snprintf_def fmt_ljust_def cstr_def NUL_def)
  show ?thesis
    using ns release_not_held [of "init_world (''B               0000000000000001'' @ replicate 480 NUL) 0"
        "''A''" "\<lparr>lease_ms = 0, op_max_ms = 0\<rparr>"
        "\<lparr>sigaction_ok = True, rd = \<lparr>ret = 512, dur = 1000, err = 0\<rparr>,
            wr = \<lparr>ret = 512, dur = 1000, err = 0\<rparr>\<rparr>"]
    by (simp add: init_world_def)
qed

section \<open>Properties of query\<close>

lemma query_unfold:
  assumes "readtag p e (replicate taglen NUL) False w = (r, cur, w1)"
  shows "query ctime p e w =
     (if r < 0 then (- errno w1, None, w1)
      else (1,
            Some \<lparr>status = (if sameid cur freetag then ''FREE'' else ''LOCKED''),
                  shown_id = fst (querytag cur), shown_ts = snd (querytag cur),
                  shown_time = butlast (cstr (ctime (c_div (snd (querytag cur)) 1000000))),
                  shown_usec = ucast (c_rem (snd (querytag cur)) 1000000)\<rparr>,
            w1))"
  by (simp add: query_def assms Let_def split_beta)

lemma readtag_tag:
  assumes "int taglen \<le> ret e" "length (disk w) = 512"
  shows "\<exists>n w1. 0 < n \<and> readtag p e tag False w = (int n, take taglen (disk w), w1)"
proof -
  define n where "n = min (nat (ret e)) (min 512 (length (disk w)))"
  define w1 where "w1 = w\<lparr>clock := clock w + dur e,
                          iobuf := take n (disk w) @ drop n (iobuf w)\<rparr>"
  have ok: "0 \<le> ret e" using assms(1) by simp
  have n: "taglen \<le> n"
    using assms by (simp add: n_def taglen_def idlen_def stamplen_def)
  then have n0: "n \<noteq> 0" by (simp add: taglen_def idlen_def stamplen_def)
  have "taglen \<le> length (take n (disk w))"
    using n assms(2) by (simp add: n_def)
  then have "take taglen (iobuf w1) = take taglen (disk w)"
    using n by (simp add: w1_def)
  then have "readtag p e tag False w = (int n, take taglen (disk w), w1)"
    using readtag_nolimit [OF ok n_def w1_def, of p tag] n0 by simp
  then show ?thesis using n0 by blast
qed

lemma sameid_freetag: "sameid tag freetag \<longleftrightarrow> take idlen tag = take idlen freetag"
proof -
  have "snprintf (idlen + 1) (fmt_ljust idlen freetag) = take idlen freetag"
    by code_simp
  then show ?thesis by (simp add: sameid_def)
qed

lemma query_status:
  assumes "length (disk w) = 512" "int taglen \<le> ret e"
  shows "fst (query ctime p e w) = 1"
    and "map_option status (fst (snd (query ctime p e w))) =
           Some (if take idlen (disk w) = take idlen freetag then ''FREE'' else ''LOCKED'')"
proof -
  obtain n w1 where r: "0 < n" "readtag p e (replicate taglen NUL) False w = (int n, take taglen (disk w), w1)"
    using readtag_tag [OF assms(2,1)] by blast
  have t: "min idlen taglen = idlen"
    by (simp add: taglen_def)
  show "fst (query ctime p e w) = 1"
    using r(1) by (simp add: query_unfold [OF r(2)])
  show "map_option status (fst (snd (query ctime p e w))) =
           Some (if take idlen (disk w) = take idlen freetag then ''FREE'' else ''LOCKED'')"
    using r(1) by (simp add: query_unfold [OF r(2)] sameid_freetag t)
qed

lemma not_isfree_stamp:
  assumes "take stamplen (drop idlen tag) \<noteq> drop idlen freetag"
  shows "\<not> isfree tag"
proof
  assume "isfree tag"
  then have "take taglen tag = freetag"
    by (simp add: isfree_def sametag_def taglen_def idlen_def stamplen_def freetag_def)
  then have "drop idlen (take taglen tag) = drop idlen freetag" by simp
  then have "take stamplen (drop idlen tag) = drop idlen freetag"
    by (simp add: taglen_def drop_take)
  with assms show False by simp
qed

text \<open>
  C9.  When the read returns at least the tag, \<open>query\<close> prints \<open>FREE\<close> exactly when
  the first 16 bytes of the sector are the sentinel's identity field, whatever the
  timestamp field holds; so for a tag with that identity field and a timestamp field
  other than sixteen zeros it prints \<open>FREE\<close> although \<open>isfree\<close> of the tag is false.
\<close>

theorem query_free_by_identity_only:
  assumes "length (disk w) = 512" "int taglen \<le> ret e"
  shows "fst (query ctime p e w) = 1
       \<and> map_option status (fst (snd (query ctime p e w))) =
           Some (if take idlen (disk w) = take idlen freetag then ''FREE'' else ''LOCKED'')
       \<and> (take idlen (disk w) = take idlen freetag
            \<and> take stamplen (drop idlen (disk w)) \<noteq> drop idlen freetag \<longrightarrow>
          map_option status (fst (snd (query ctime p e w))) = Some ''FREE''
            \<and> \<not> isfree (take taglen (disk w)))"
proof -
  have "take stamplen (drop idlen (take taglen (disk w))) = take stamplen (drop idlen (disk w))"
    by (simp add: taglen_def drop_take)
  then have nf: "take stamplen (drop idlen (disk w)) \<noteq> drop idlen freetag \<Longrightarrow>
      \<not> isfree (take taglen (disk w))"
    using not_isfree_stamp [of "take taglen (disk w)"] by simp
  note s = query_status [OF assms, of ctime p]
  show ?thesis
  proof (intro conjI impI)
    show "fst (query ctime p e w) = 1" by (rule s(1))
    show "map_option status (fst (snd (query ctime p e w))) =
           Some (if take idlen (disk w) = take idlen freetag then ''FREE'' else ''LOCKED'')"
      by (rule s(2))
  next
    assume a: "take idlen (disk w) = take idlen freetag
            \<and> take stamplen (drop idlen (disk w)) \<noteq> drop idlen freetag"
    then show "map_option status (fst (snd (query ctime p e w))) = Some ''FREE''"
      using s(2) by simp
    from a show "\<not> isfree (take taglen (disk w))"
      using nf by simp
  qed
qed

theorem query_free_by_identity_only_witness:
  "length (disk (init_world (''------FREE------0000000000000001'' @ replicate 480 NUL) 0)) = 512
   \<and> int taglen \<le> ret \<lparr>ret = 512, dur = 1000, err = 0\<rparr>
   \<and> take idlen (disk (init_world (''------FREE------0000000000000001'' @ replicate 480 NUL) 0))
        = take idlen freetag
   \<and> take stamplen (drop idlen
         (disk (init_world (''------FREE------0000000000000001'' @ replicate 480 NUL) 0)))
        \<noteq> drop idlen freetag
   \<and> map_option status (fst (snd (query (\<lambda>t. ''Thu Jan  1 00:00:00 1970'' @ [CHR 0x0A])
          \<lparr>lease_ms = 0, op_max_ms = 0\<rparr> \<lparr>ret = 512, dur = 1000, err = 0\<rparr>
          (init_world (''------FREE------0000000000000001'' @ replicate 480 NUL) 0))))
        = Some ''FREE''
   \<and> \<not> isfree (take taglen
         (disk (init_world (''------FREE------0000000000000001'' @ replicate 480 NUL) 0)))"
  using query_free_by_identity_only
    [of "init_world (''------FREE------0000000000000001'' @ replicate 480 NUL) 0"
        "\<lparr>ret = 512, dur = 1000, err = 0\<rparr>"
        "\<lambda>t. ''Thu Jan  1 00:00:00 1970'' @ [CHR 0x0A]" "\<lparr>lease_ms = 0, op_max_ms = 0\<rparr>"]
  by (simp add: init_world_def taglen_def idlen_def stamplen_def freetag_def)

section \<open>Identities that differ in trailing spaces\<close>

lemma fmt_ljust_prefix:
  assumes "NUL \<notin> set i" "NUL \<notin> set j" "length j \<le> n" "length i \<le> length j"
    and eq: "i @ replicate a (CHR '' '') = j @ replicate b (CHR '' '')"
  shows "fmt_ljust n i = fmt_ljust n j"
proof -
  have "take (length j) (i @ replicate a (CHR '' '')) = j"
    using eq by simp
  moreover have "length j - length i \<le> a"
    using arg_cong [OF eq, of length] by simp
  ultimately have j: "j = i @ replicate (length j - length i) (CHR '' '')"
    using assms(4) by (simp add: min_def)
  have "fmt_ljust n j = j @ replicate (n - length j) (CHR '' '')"
    using assms(2) by (rule fmt_ljust_noNUL_eq)
  also have "\<dots> = i @ replicate (length j - length i) (CHR '' '') @ replicate (n - length j) (CHR '' '')"
    by (subst j) simp
  also have "\<dots> = i @ replicate (n - length i) (CHR '' '')"
    using assms(3,4) by (simp add: replicate_add [symmetric])
  also have "\<dots> = fmt_ljust n i"
    using assms(1) by (rule fmt_ljust_noNUL_eq [symmetric])
  finally show ?thesis by simp
qed

lemma fmt_ljust_trailing:
  assumes "NUL \<notin> set i" "NUL \<notin> set j" "length i \<le> n" "length j \<le> n"
    and eq: "i @ replicate a (CHR '' '') = j @ replicate b (CHR '' '')"
  shows "fmt_ljust n i = fmt_ljust n j"
proof (cases "length i \<le> length j")
  case True
  with assms show ?thesis by (intro fmt_ljust_prefix)
next
  case False
  then have "length j \<le> length i" by simp
  then have "fmt_ljust n j = fmt_ljust n i"
    using assms(1,2,3) eq [symmetric] by (intro fmt_ljust_prefix)
  then show ?thesis by simp
qed

lemma renew_cong:
  assumes "\<And>tag. sameid tag j = sameid tag i" "\<And>t. buildtag j t = buildtag i t"
  shows "renew p e j t0 w = renew p e i t0 w"
  by (simp only: renew_def writetimestamp_def assms)

lemma release_cong:
  assumes "\<And>tag. sameid tag j = sameid tag i"
  shows "release p e j force w = release p e i force w"
  by (simp only: release_def assms)

lemma release_match:
  assumes "length (disk w) = 512" "int taglen \<le> ret (rd e)" "sameid (take taglen (disk w)) ident"
  shows "fst (release p e ident False w) \<noteq> 0"
proof -
  obtain n w1 where r: "0 < n"
      "readtag p (rd e) (replicate taglen NUL) False w = (int n, take taglen (disk w), w1)"
    using readtag_tag [OF assms(2,1)] by blast
  show ?thesis
    using r(1) assms(3) by (simp add: release_unfold [OF r(2)])
qed

section \<open>Properties of renew\<close>

lemma fst_writetag_le: "fst (writetag p e tag limit w) \<le> 0"
proof (cases "ret e < 0")
  case True
  then show ?thesis by (simp add: writetag_fail)
next
  case False
  define b where "b = take taglen tag @ drop taglen (iobuf w)"
  define n where "n = min (nat (ret e)) (min 512 (length b))"
  define w1 where
    "w1 = w\<lparr>iobuf := b, clock := clock w + dur e, disk := take n b @ drop n (disk w)\<rparr>"
  from False have ok: "0 \<le> ret e" by simp
  show ?thesis
    unfolding writetag_ok [OF ok b_def n_def w1_def] by simp
qed

lemma writetimestamp_unfold:
  "writetimestamp p e ident ts w =
     (let t = tv_sec (gettimeofday w) * 1000000 + tv_usec (gettimeofday w);
          W = writetag p e (buildtag ident t) True w
      in (fst W, buildtag ident t, ts, snd W))"
proof -
  have "\<not> 0 < fst (writetag p e (buildtag ident
           (tv_sec (gettimeofday w) * 1000000 + tv_usec (gettimeofday w))) True w)"
    using fst_writetag_le [of p e _ True w] by (simp add: not_less)
  then show ?thesis
    by (simp add: writetimestamp_def Let_def split_beta)
qed

lemma writetimestamp_keeps_ts:
  "fst (snd (snd (writetimestamp p e ident ts w))) = ts"
  by (simp add: writetimestamp_unfold Let_def)

lemma renew_unfold:
  assumes "sigaction_ok e"
    and "readtag p (rd e) (replicate taglen NUL) False w = (r, cur, w1)"
    and "ts1 = snd (querytag cur)"
    and "msleft = timeleft_ms p ts1 w1"
    and "t = tv_sec (gettimeofday w1) * 1000000 + tv_usec (gettimeofday w1)"
    and "writetag p (wr e) (buildtag ident t) True w1 = (r2, w2)"
  shows "renew p e ident ts w =
     (if r < 0 then Return (- errno w1) ts w1
      else if \<not> sameid cur ident then Return 0 0 w1
      else if msleft \<le>s 0 then Return (- ETIMEDOUT) ts1 w1
      else if alarm_fires (ucast (c_div msleft 1000)) (dur (wr e)) then Panic
      else if r2 < 0 then Return (- errno w2) ts1 w2
      else Return 1 ts1 w2)"
  using assms(1)
  by (simp add: renew_def assms(2) Let_def writetimestamp_unfold
      assms(3) [symmetric] assms(4) [symmetric] assms(5) [symmetric] assms(6))

lemma writetag_full_limited:
  assumes "512 \<le> ret e" "length tag = taglen" "length (iobuf w) = 512" "length (disk w) = 512"
    and "w1 = w\<lparr>iobuf := tag @ drop taglen (iobuf w), clock := clock w + dur e,
                  disk := tag @ drop taglen (iobuf w)\<rparr>"
    and "fst (withintimelimits p (gettimeofday w) (gettimeofday w1) w1)"
  shows "writetag p e tag True w = (0, w1)"
proof -
  have ok: "0 \<le> ret e" using assms by simp
  have b: "tag @ drop taglen (iobuf w) = take taglen tag @ drop taglen (iobuf w)"
    using assms by simp
  have len: "length (tag @ drop taglen (iobuf w)) = 512"
    using assms by (simp add: taglen_def idlen_def stamplen_def)
  have n: "512 = min (nat (ret e)) (min 512 (length (tag @ drop taglen (iobuf w))))"
    using assms(1) len by simp
  have w1: "w1 = w\<lparr>iobuf := tag @ drop taglen (iobuf w), clock := clock w + dur e,
                  disk := take 512 (tag @ drop taglen (iobuf w)) @ drop 512 (disk w)\<rparr>"
    using len assms(4,5) by simp
  show ?thesis
    using writetag_ok [OF ok b n w1, of p True] assms(6)
    by (simp add: taglen_def idlen_def stamplen_def)
qed

text \<open>
  C3.  \<open>writetimestamp\<close> assigns \<open>*ts\<close> only under \<open>r > 0\<close>, and \<open>writetag\<close>
  returns 0 when it succeeds: run at 2.001 s on a sector that identity \<open>A\<close> stamped at
  1.000 s, \<open>writetimestamp\<close> returns 0, writes the tag of 2001000 and leaves the
  caller's \<open>ts\<close> as it was; \<open>renew\<close> returns 1 and reports 1000000, the stamp it
  read from the sector, while the sector now holds 2001000.
\<close>

theorem renew_reports_previous_timestamp:
  "fst (writetimestamp \<lparr>lease_ms = 60000, op_max_ms = 5000\<rparr> \<lparr>ret = 512, dur = 1000, err = 0\<rparr>
          ''A'' 77
          \<lparr>disk = ''A               00000000000f4240'' @ replicate 480 NUL,
            iobuf = ''A               00000000000f4240'' @ replicate 480 NUL,
            clock = 2001000, errno = 0\<rparr>) = 0
   \<and> fst (snd (writetimestamp \<lparr>lease_ms = 60000, op_max_ms = 5000\<rparr>
          \<lparr>ret = 512, dur = 1000, err = 0\<rparr> ''A'' 77
          \<lparr>disk = ''A               00000000000f4240'' @ replicate 480 NUL,
            iobuf = ''A               00000000000f4240'' @ replicate 480 NUL,
            clock = 2001000, errno = 0\<rparr>)) = buildtag ''A'' 2001000
   \<and> fst (snd (snd (writetimestamp \<lparr>lease_ms = 60000, op_max_ms = 5000\<rparr>
          \<lparr>ret = 512, dur = 1000, err = 0\<rparr> ''A'' 77
          \<lparr>disk = ''A               00000000000f4240'' @ replicate 480 NUL,
            iobuf = ''A               00000000000f4240'' @ replicate 480 NUL,
            clock = 2001000, errno = 0\<rparr>))) = 77
   \<and> renew \<lparr>lease_ms = 60000, op_max_ms = 5000\<rparr>
          \<lparr>sigaction_ok = True, rd = \<lparr>ret = 512, dur = 1000, err = 0\<rparr>,
            wr = \<lparr>ret = 512, dur = 1000, err = 0\<rparr>\<rparr>
          ''A'' 0 (init_world (''A               00000000000f4240'' @ replicate 480 NUL) 2000000)
       = Return 1 1000000
          \<lparr>disk = buildtag ''A'' 2001000 @ replicate 480 NUL,
            iobuf = buildtag ''A'' 2001000 @ replicate 480 NUL,
            clock = 2002000, errno = 0\<rparr>"
proof -
  define d where "d = ''A               00000000000f4240'' @ replicate 480 NUL"
  define io1 where "io1 = \<lparr>ret = 512, dur = 1000, err = 0\<rparr>"
  define e where "e = \<lparr>sigaction_ok = True, rd = io1, wr = io1\<rparr>"
  define p where "p = \<lparr>lease_ms = 60000, op_max_ms = 5000\<rparr>"
  define w1 where "w1 = \<lparr>disk = d, iobuf = d, clock = 2001000, errno = 0\<rparr>"
  define w2 where "w2 = \<lparr>disk = buildtag ''A'' 2001000 @ replicate 480 NUL,
      iobuf = buildtag ''A'' 2001000 @ replicate 480 NUL, clock = 2002000, errno = 0\<rparr>"
  have l: "length d = 512" by (simp add: d_def)
  have tk: "take taglen d = ''A               00000000000f4240''"
    by (simp add: d_def taglen_def idlen_def stamplen_def)
  have dr: "drop taglen d = replicate 480 NUL"
    by (simp add: d_def taglen_def idlen_def stamplen_def)
  have lb: "length (buildtag ''A'' 2001000) = taglen"
    by (rule length_buildtag) (simp add: cstr_def NUL_def idlen_def)
  have r: "readtag p (rd e) (replicate taglen NUL) False (init_world d 2000000)
             = (512, take taglen d, w1)"
    using readtag_full [where e = "rd e" and w = "init_world d 2000000" and p = p
        and tag = "replicate taglen NUL"]
    by (simp add: e_def io1_def w1_def init_world_def l)
  have q: "snd (querytag ''A               00000000000f4240'') = 1000000" by code_simp
  have s: "sameid ''A               00000000000f4240'' ''A''" by code_simp
  have m: "timeleft_ms p 1000000 w1 = 58999"
    by (simp add: p_def w1_def timeleft_ms_def tv2msec_def gettimeofday_def c_div_def Let_def
        signed_divide_int_def)
  have m1: "\<not> (58999 :: u64) \<le>s 0" by (simp add: word_sle_eq)
  have m2: "\<not> alarm_fires (ucast (c_div (58999 :: u64) 1000)) (dur (wr e))"
    by (simp add: alarm_fires_def c_div_def signed_divide_int_def e_def io1_def)
  have t: "tv_sec (gettimeofday w1) * 1000000 + tv_usec (gettimeofday w1) = 2001000"
    by (simp add: gettimeofday_def w1_def)
  have wl: "fst (withintimelimits p (gettimeofday w1) (gettimeofday w2) w2)"
    by (simp add: p_def w1_def w2_def withintimelimits_def tv2msec_def gettimeofday_def
        c_div_def Let_def signed_divide_int_def word_sle_eq)
  have wt: "writetag p io1 (buildtag ''A'' 2001000) True w1 = (0, w2)"
    by (rule writetag_full_limited [OF _ lb _ _ _ wl])
      (simp_all add: io1_def w1_def w2_def l dr)
  have ws: "writetimestamp p io1 ''A'' 77 w1 = (0, buildtag ''A'' 2001000, 77, w2)"
    by (simp add: writetimestamp_unfold t wt)
  have wt': "writetag p (wr e) (buildtag ''A'' 2001000) True w1 = (0, w2)"
    using wt by (simp add: e_def)
  have rn: "renew p e ''A'' 0 (init_world d 2000000) = Return 1 1000000 w2"
    using renew_unfold [OF _ r q [symmetric, folded tk] m [symmetric] t [symmetric] wt',
        where ts = 0] s m1 m2
    by (simp add: e_def tk)
  show ?thesis
    using ws rn
    unfolding d_def [symmetric] io1_def [symmetric] e_def [symmetric] p_def [symmetric]
      w1_def [symmetric] w2_def [symmetric]
    by simp
qed

text \<open>From one second of lease left on, the alarm is armed and a write that lasts
  as long as \<open>msleft\<close> ends in the panic.\<close>

lemma alarm_fires_from_one_second:
  fixes msleft :: u64
  assumes "1000 \<le> sint msleft" "sint msleft < 2 ^ 32 * 1000"
    and "nat (sint msleft) * 1000 \<le> d"
  shows "alarm_fires (ucast (c_div msleft 1000)) d"
proof -
  define k where "k = sint msleft div 1000"
  have k: "1 \<le> k" "k < 2 ^ 32"
    using assms(1,2) by (simp_all add: k_def div_less_iff_less_mult pos_imp_zdiv_pos_iff)
  have "sint msleft sdiv sint (1000 :: u64) = k"
    using assms(1) by (simp add: k_def signed_divide_int_def sgn_if)
  then have c: "c_div msleft 1000 = word_of_int k"
    by (simp add: c_div_def)
  have u: "(ucast (word_of_int k :: u64) :: 32 word) = word_of_int k"
    using k by (simp add: unsigned_of_int take_bit_int_eq_self)
  have n: "unat (word_of_int k :: 32 word) = nat k"
    using k by (simp add: unat_eq_nat_uint uint_word_of_int take_bit_int_eq_self)
  have nz: "(word_of_int k :: 32 word) \<noteq> 0"
  proof
    assume "(word_of_int k :: 32 word) = 0"
    then have "unat (word_of_int k :: 32 word) = 0" by simp
    with n k(1) show False by simp
  qed
  have "k * 1000 \<le> sint msleft" by (simp add: k_def)
  then have "nat k * 1000 \<le> nat (sint msleft)"
    using k(1) by (simp add: nat_mult_distrib [symmetric] nat_le_eq_zle)
  then have "nat k * 1000000 \<le> nat (sint msleft) * 1000" by simp
  with assms(3) have "nat k * 1000000 \<le> d" by simp
  then show ?thesis
    by (simp add: alarm_fires_def c u n nz)
qed

lemma renew_fenced_from_one_second:
  assumes "sigaction_ok e"
    and "readtag p (rd e) (replicate taglen NUL) False w = (r, cur, w1)" "0 \<le> r"
    and "sameid cur ident"
    and "msleft = timeleft_ms p (snd (querytag cur)) w1"
    and "1000 \<le> sint msleft" "sint msleft < 2 ^ 32 * 1000"
    and "nat (sint msleft) * 1000 \<le> dur (wr e)"
  shows "renew p e ident ts w = Panic"
proof -
  define t where "t = tv_sec (gettimeofday w1) * 1000000 + tv_usec (gettimeofday w1)"
  obtain r2 w2 where wt: "writetag p (wr e) (buildtag ident t) True w1 = (r2, w2)"
    by (cases "writetag p (wr e) (buildtag ident t) True w1")
  have a: "alarm_fires (ucast (c_div msleft 1000)) (dur (wr e))"
    using assms(6-8) by (rule alarm_fires_from_one_second)
  have n: "\<not> msleft \<le>s 0"
    using assms(6) by (simp add: word_sle_eq)
  show ?thesis
    using renew_unfold [OF assms(1,2) refl assms(5) t_def wt, of ts] assms(3,4) a n
    by simp
qed

text \<open>
  C2.  With \<open>lease_ms = 60000\<close> and a sector stamped 59.5 s before the read ends,
  \<open>msleft\<close> is 500, so \<open>renew\<close> calls \<open>alarm(500 / 1000)\<close>, that is \<open>alarm(0)\<close>, which
  arms nothing.  A write that then lasts 700 ms, longer than \<open>msleft\<close> and within
  \<open>op_max_ms\<close>, completes: \<open>renew\<close> does not panic, it returns 1 and the sector holds
  the new tag.
\<close>

theorem renew_unfenced_below_one_second:
  "timeleft_ms \<lparr>lease_ms = 60000, op_max_ms = 5000\<rparr> 1000000
      \<lparr>disk = ''A               00000000000f4240'' @ replicate 480 NUL,
        iobuf = ''A               00000000000f4240'' @ replicate 480 NUL,
        clock = 60500000, errno = 0\<rparr> = 500
   \<and> (ucast (c_div (500 :: u64) 1000) :: 32 word) = 0
   \<and> 500 * 1000 < dur (wr \<lparr>sigaction_ok = True, rd = \<lparr>ret = 512, dur = 1000, err = 0\<rparr>,
                            wr = \<lparr>ret = 512, dur = 700000, err = 0\<rparr>\<rparr>)
   \<and> renew \<lparr>lease_ms = 60000, op_max_ms = 5000\<rparr>
          \<lparr>sigaction_ok = True, rd = \<lparr>ret = 512, dur = 1000, err = 0\<rparr>,
            wr = \<lparr>ret = 512, dur = 700000, err = 0\<rparr>\<rparr>
          ''A'' 0 (init_world (''A               00000000000f4240'' @ replicate 480 NUL) 60499000)
       = Return 1 1000000
          \<lparr>disk = buildtag ''A'' 60500000 @ replicate 480 NUL,
            iobuf = buildtag ''A'' 60500000 @ replicate 480 NUL,
            clock = 61200000, errno = 0\<rparr>"
proof -
  define d where "d = ''A               00000000000f4240'' @ replicate 480 NUL"
  define e where "e = \<lparr>sigaction_ok = True, rd = \<lparr>ret = 512, dur = 1000, err = 0\<rparr>,
                            wr = \<lparr>ret = 512, dur = 700000, err = 0\<rparr>\<rparr>"
  define p where "p = \<lparr>lease_ms = 60000, op_max_ms = 5000\<rparr>"
  define w1 where "w1 = \<lparr>disk = d, iobuf = d, clock = 60500000, errno = 0\<rparr>"
  define w2 where "w2 = \<lparr>disk = buildtag ''A'' 60500000 @ replicate 480 NUL,
      iobuf = buildtag ''A'' 60500000 @ replicate 480 NUL, clock = 61200000, errno = 0\<rparr>"
  have l: "length d = 512" by (simp add: d_def)
  have tk: "take taglen d = ''A               00000000000f4240''"
    by (simp add: d_def taglen_def idlen_def stamplen_def)
  have dr: "drop taglen d = replicate 480 NUL"
    by (simp add: d_def taglen_def idlen_def stamplen_def)
  have lb: "length (buildtag ''A'' 60500000) = taglen"
    by (rule length_buildtag) (simp add: cstr_def NUL_def idlen_def)
  have r: "readtag p (rd e) (replicate taglen NUL) False (init_world d 60499000)
             = (512, take taglen d, w1)"
    using readtag_full [where e = "rd e" and w = "init_world d 60499000" and p = p
        and tag = "replicate taglen NUL"]
    by (simp add: e_def w1_def init_world_def l)
  have q: "snd (querytag ''A               00000000000f4240'') = 1000000" by code_simp
  have s: "sameid ''A               00000000000f4240'' ''A''" by code_simp
  have m: "timeleft_ms p 1000000 w1 = 500"
    by (simp add: p_def w1_def timeleft_ms_def tv2msec_def gettimeofday_def c_div_def Let_def
        signed_divide_int_def)
  have m1: "\<not> (500 :: u64) \<le>s 0" by (simp add: word_sle_eq)
  have a0: "(ucast (c_div (500 :: u64) 1000) :: 32 word) = 0"
    by (simp add: c_div_def signed_divide_int_def)
  have m2: "\<not> alarm_fires (ucast (c_div (500 :: u64) 1000)) (dur (wr e))"
    by (simp add: alarm_fires_def a0)
  have t: "tv_sec (gettimeofday w1) * 1000000 + tv_usec (gettimeofday w1) = 60500000"
    by (simp add: gettimeofday_def w1_def)
  have wl: "fst (withintimelimits p (gettimeofday w1) (gettimeofday w2) w2)"
    by (simp add: p_def w1_def w2_def withintimelimits_def tv2msec_def gettimeofday_def
        c_div_def Let_def signed_divide_int_def word_sle_eq)
  have wt: "writetag p (wr e) (buildtag ''A'' 60500000) True w1 = (0, w2)"
    by (rule writetag_full_limited [OF _ lb _ _ _ wl])
      (simp_all add: e_def w1_def w2_def l dr)
  have rn: "renew p e ''A'' 0 (init_world d 60499000) = Return 1 1000000 w2"
    using renew_unfold [OF _ r q [symmetric, folded tk] m [symmetric] t [symmetric] wt,
        where ts = 0] s m1 m2
    by (simp add: e_def tk)
  show ?thesis
    using m a0 rn
    unfolding d_def [symmetric] e_def [symmetric] p_def [symmetric]
      w1_def [symmetric] w2_def [symmetric]
    by (simp add: e_def)
qed

section \<open>Renew and release with an identity that differs in trailing spaces\<close>

lemma readtag_tag_explicit:
  assumes "int taglen \<le> ret e" "length (disk w) = 512"
    and "n = min (nat (ret e)) 512"
    and "w1 = w\<lparr>clock := clock w + dur e, iobuf := take n (disk w) @ drop n (iobuf w)\<rparr>"
  shows "readtag p e tag False w = (int n, take taglen (disk w), w1)"
proof -
  have ok: "0 \<le> ret e" using assms(1) by simp
  have n': "n = min (nat (ret e)) (min 512 (length (disk w)))"
    using assms(2,3) by simp
  have n: "taglen \<le> n"
    using assms(1,3) by (simp add: taglen_def idlen_def stamplen_def)
  then have n0: "n \<noteq> 0" by (simp add: taglen_def idlen_def stamplen_def)
  have "taglen \<le> length (take n (disk w))"
    using n assms(2,3) by simp
  then have "take taglen (iobuf w1) = take taglen (disk w)"
    by (simp add: assms(4))
  then show ?thesis
    using readtag_nolimit [OF ok n' assms(4), of p tag] n0 by simp
qed

lemma renew_match:
  assumes "sigaction_ok e" "length (disk w) = 512" "int taglen \<le> ret (rd e)"
    and "take taglen (disk w) = buildtag i ts" "length (cstr i) \<le> idlen"
    and "sameid (buildtag i ts) ident"
    and "n = min (nat (ret (rd e))) 512"
    and "w1 = w\<lparr>clock := clock w + dur (rd e), iobuf := take n (disk w) @ drop n (iobuf w)\<rparr>"
    and "msleft = timeleft_ms p ts w1"
    and "t = tv_sec (gettimeofday w1) * 1000000 + tv_usec (gettimeofday w1)"
    and "W = writetag p (wr e) (buildtag ident t) True w1"
  shows "renew p e ident t0 w =
     (if msleft \<le>s 0 then Return (- ETIMEDOUT) ts w1
      else if alarm_fires (ucast (c_div msleft 1000)) (dur (wr e)) then Panic
      else if fst W < 0 then Return (- errno (snd W)) ts (snd W)
      else Return 1 ts (snd W))"
proof -
  have r: "readtag p (rd e) (replicate taglen NUL) False w = (int n, buildtag i ts, w1)"
    using readtag_tag_explicit [OF assms(3,2,7,8), of p "replicate taglen NUL"]
    by (simp add: assms(4))
  have q: "ts = snd (querytag (buildtag i ts))"
    by (simp add: querytag_buildtag [OF assms(5)])
  have m: "msleft = timeleft_ms p ts w1" by (rule assms(9))
  have wt: "writetag p (wr e) (buildtag ident t) True w1 = (fst W, snd W)"
    by (simp add: assms(11))
  show ?thesis
    using renew_unfold [OF assms(1) r q m assms(10) wt, of t0] assms(6)
    by simp
qed

lemma release_match_explicit:
  assumes "length (disk w) = 512" "int taglen \<le> ret (rd e)"
    and "sameid (take taglen (disk w)) ident"
    and "n = min (nat (ret (rd e))) 512"
    and "w1 = w\<lparr>clock := clock w + dur (rd e), iobuf := take n (disk w) @ drop n (iobuf w)\<rparr>"
    and "W = writetag p (wr e) freetag False w1"
  shows "release p e ident False w = (if fst W < 0 then - 1 else 1, snd W)"
proof -
  have r: "readtag p (rd e) (replicate taglen NUL) False w = (int n, take taglen (disk w), w1)"
    by (rule readtag_tag_explicit [OF assms(2,1,4,5)])
  show ?thesis
    using assms(3) by (simp add: release_unfold [OF r] assms(6))
qed

text \<open>
  C10.  For identities \<open>i\<close> and \<open>j\<close> of at most 16 bytes that differ only in trailing
  spaces, \<open>sameid (buildtag i ts) j\<close> holds for every \<open>ts\<close>, and \<open>renew\<close> and \<open>release\<close>
  behave with \<open>j\<close> exactly as they do with \<open>i\<close>.  On a sector that holds
  \<open>buildtag i ts\<close>, once the read returns the tag, both pass the identity check with
  \<open>j\<close>: a non-forced \<open>release\<close> goes on to write the sentinel and returns 1 or -1 as
  that write fares, never 0; \<open>renew\<close> takes \<open>ts\<close> as the stamp in the sector, goes on
  to the test of the lease time left and then writes the tag of \<open>i\<close> with the current
  time, returning 1 when that write succeeds.
\<close>

theorem sameid_trailing_spaces:
  assumes "NUL \<notin> set i" "NUL \<notin> set j" "length i \<le> idlen" "length j \<le> idlen"
    and "i @ replicate a (CHR '' '') = j @ replicate b (CHR '' '')"
  shows "sameid (buildtag i ts) j
       \<and> renew p e j t0 w = renew p e i t0 w
       \<and> release p e j False w = release p e i False w
       \<and> (length (disk w) = 512 \<and> int taglen \<le> ret (rd e)
            \<and> take taglen (disk w) = buildtag i ts \<longrightarrow>
          fst (release p e j False w) \<noteq> 0
          \<and> release p e j False w =
              (let n = min (nat (ret (rd e))) 512;
                   w1 = w\<lparr>clock := clock w + dur (rd e),
                          iobuf := take n (disk w) @ drop n (iobuf w)\<rparr>;
                   W = writetag p (wr e) freetag False w1
               in (if fst W < 0 then - 1 else 1, snd W)))
       \<and> (sigaction_ok e \<and> length (disk w) = 512 \<and> int taglen \<le> ret (rd e)
            \<and> take taglen (disk w) = buildtag i ts \<longrightarrow>
          renew p e j t0 w =
            (let n = min (nat (ret (rd e))) 512;
                 w1 = w\<lparr>clock := clock w + dur (rd e),
                        iobuf := take n (disk w) @ drop n (iobuf w)\<rparr>;
                 msleft = timeleft_ms p ts w1;
                 t = tv_sec (gettimeofday w1) * 1000000 + tv_usec (gettimeofday w1);
                 W = writetag p (wr e) (buildtag i t) True w1
             in if msleft \<le>s 0 then Return (- ETIMEDOUT) ts w1
                else if alarm_fires (ucast (c_div msleft 1000)) (dur (wr e)) then Panic
                else if fst W < 0 then Return (- errno (snd W)) ts (snd W)
                else Return 1 ts (snd W)))"
proof -
  have f: "fmt_ljust idlen j = fmt_ljust idlen i"
    using fmt_ljust_trailing [OF assms] by simp
  have li: "length (cstr i) \<le> idlen" using assms(1,3) by (simp add: cstr_noNUL)
  have s: "\<And>tag. sameid tag j = sameid tag i"
    by (simp add: sameid_def f)
  have b: "\<And>t. buildtag j t = buildtag i t"
    by (simp add: buildtag_def f)
  have "sameid (buildtag i ts) i"
    using length_fmt_ljust [OF li]
    by (simp add: sameid_def take_idlen_buildtag [OF li] snprintf_def)
  then have m: "sameid (buildtag i ts) j" by (simp add: s)
  have c1: "sameid (buildtag i ts) j" by (rule m)
  have c2: "renew p e j t0 w = renew p e i t0 w" using s b by (rule renew_cong)
  have c3: "release p e j False w = release p e i False w" using s by (rule release_cong)
  have c4: "fst (release p e j False w) \<noteq> 0
          \<and> release p e j False w =
              (let n = min (nat (ret (rd e))) 512;
                   w1 = w\<lparr>clock := clock w + dur (rd e),
                          iobuf := take n (disk w) @ drop n (iobuf w)\<rparr>;
                   W = writetag p (wr e) freetag False w1
               in (if fst W < 0 then - 1 else 1, snd W))"
    if a: "length (disk w) = 512 \<and> int taglen \<le> ret (rd e)
            \<and> take taglen (disk w) = buildtag i ts"
  proof -
    from a have sm: "sameid (take taglen (disk w)) j" using m by simp
    have "fst (release p e j False w) \<noteq> 0"
      using a sm by (intro release_match) simp_all
    moreover have "release p e j False w =
              (let n = min (nat (ret (rd e))) 512;
                   w1 = w\<lparr>clock := clock w + dur (rd e),
                          iobuf := take n (disk w) @ drop n (iobuf w)\<rparr>;
                   W = writetag p (wr e) freetag False w1
               in (if fst W < 0 then - 1 else 1, snd W))"
      unfolding Let_def using a sm
      by (intro release_match_explicit [OF _ _ _ refl refl refl]) simp_all
    ultimately show ?thesis by simp
  qed
  have c5: "renew p e j t0 w =
            (let n = min (nat (ret (rd e))) 512;
                 w1 = w\<lparr>clock := clock w + dur (rd e),
                        iobuf := take n (disk w) @ drop n (iobuf w)\<rparr>;
                 msleft = timeleft_ms p ts w1;
                 t = tv_sec (gettimeofday w1) * 1000000 + tv_usec (gettimeofday w1);
                 W = writetag p (wr e) (buildtag i t) True w1
             in if msleft \<le>s 0 then Return (- ETIMEDOUT) ts w1
                else if alarm_fires (ucast (c_div msleft 1000)) (dur (wr e)) then Panic
                else if fst W < 0 then Return (- errno (snd W)) ts (snd W)
                else Return 1 ts (snd W))"
    if a: "sigaction_ok e \<and> length (disk w) = 512 \<and> int taglen \<le> ret (rd e)
            \<and> take taglen (disk w) = buildtag i ts"
    unfolding Let_def b [symmetric] using a li m
    by (intro renew_match [OF _ _ _ _ _ _ refl refl refl refl refl, where i = i]) simp_all
  show ?thesis
    using c1 c2 c3 c4 c5 by blast
qed


theorem sameid_trailing_spaces_witness:
  "NUL \<notin> set ''A'' \<and> NUL \<notin> set ''A  '' \<and> length ''A'' \<le> idlen \<and> length ''A  '' \<le> idlen
   \<and> ''A'' @ replicate 2 (CHR '' '') = ''A  '' @ replicate 0 (CHR '' '')
   \<and> sameid (buildtag ''A'' 1000000) ''A  ''
   \<and> sigaction_ok \<lparr>sigaction_ok = True, rd = \<lparr>ret = 512, dur = 1000, err = 0\<rparr>,
                     wr = \<lparr>ret = 512, dur = 1000, err = 0\<rparr>\<rparr>
   \<and> length (disk (init_world (buildtag ''A'' 1000000 @ replicate 480 NUL) 2000000)) = 512
   \<and> int taglen \<le> ret (rd \<lparr>sigaction_ok = True, rd = \<lparr>ret = 512, dur = 1000, err = 0\<rparr>,
                              wr = \<lparr>ret = 512, dur = 1000, err = 0\<rparr>\<rparr>)
   \<and> take taglen (disk (init_world (buildtag ''A'' 1000000 @ replicate 480 NUL) 2000000))
       = buildtag ''A'' 1000000
   \<and> release \<lparr>lease_ms = 60000, op_max_ms = 5000\<rparr>
          \<lparr>sigaction_ok = True, rd = \<lparr>ret = 512, dur = 1000, err = 0\<rparr>,
            wr = \<lparr>ret = 512, dur = 1000, err = 0\<rparr>\<rparr> ''A  '' False
          (init_world (buildtag ''A'' 1000000 @ replicate 480 NUL) 2000000)
       = (1, \<lparr>disk = freetag @ replicate 480 NUL, iobuf = freetag @ replicate 480 NUL,
               clock = 2002000, errno = 0\<rparr>)
   \<and> renew \<lparr>lease_ms = 60000, op_max_ms = 5000\<rparr>
          \<lparr>sigaction_ok = True, rd = \<lparr>ret = 512, dur = 1000, err = 0\<rparr>,
            wr = \<lparr>ret = 512, dur = 1000, err = 0\<rparr>\<rparr> ''A  '' 0
          (init_world (buildtag ''A'' 1000000 @ replicate 480 NUL) 2000000)
       = Return 1 1000000
          \<lparr>disk = buildtag ''A'' 2001000 @ replicate 480 NUL,
            iobuf = buildtag ''A'' 2001000 @ replicate 480 NUL,
            clock = 2002000, errno = 0\<rparr>"
proof -
  define d where "d = buildtag ''A'' 1000000 @ replicate 480 NUL"
  define w where "w = init_world d 2000000"
  define e where "e = \<lparr>sigaction_ok = True, rd = \<lparr>ret = 512, dur = 1000, err = 0\<rparr>,
            wr = \<lparr>ret = 512, dur = 1000, err = 0\<rparr>\<rparr>"
  define p where "p = \<lparr>lease_ms = 60000, op_max_ms = 5000\<rparr>"
  define w1 where "w1 = \<lparr>disk = d, iobuf = d, clock = 2001000, errno = 0\<rparr>"
  define w2 where "w2 = \<lparr>disk = buildtag ''A'' 2001000 @ replicate 480 NUL,
      iobuf = buildtag ''A'' 2001000 @ replicate 480 NUL, clock = 2002000, errno = 0\<rparr>"
  define w3 where "w3 = \<lparr>disk = freetag @ replicate 480 NUL,
      iobuf = freetag @ replicate 480 NUL, clock = 2002000, errno = 0\<rparr>"
  have lb: "length (buildtag ''A'' ts) = taglen" for ts
    by (rule length_buildtag) (simp add: cstr_def NUL_def idlen_def)
  have lb32: "length (buildtag ''A'' ts) = 32" for ts
    using lb [of ts] by (simp add: taglen_def idlen_def stamplen_def)
  have l: "length d = 512" by (simp add: d_def lb32)
  have tk: "take taglen d = buildtag ''A'' 1000000" by (simp add: d_def lb)
  have dr: "drop taglen d = replicate 480 NUL" by (simp add: d_def lb)
  have h: "sigaction_ok e \<and> length (disk w) = 512 \<and> int taglen \<le> ret (rd e)
            \<and> take taglen (disk w) = buildtag ''A'' 1000000"
  proof -
    have "take taglen (disk w) = buildtag ''A'' 1000000"
      by (simp add: w_def init_world_def tk)
    moreover have "sigaction_ok e \<and> length (disk w) = 512 \<and> int taglen \<le> ret (rd e)"
      by (simp add: w_def e_def init_world_def l taglen_def idlen_def stamplen_def)
    ultimately show ?thesis by simp
  qed
  have w1eq: "w\<lparr>clock := clock w + dur (rd e),
               iobuf := take (min (nat (ret (rd e))) 512) (disk w)
                          @ drop (min (nat (ret (rd e))) 512) (iobuf w)\<rparr> = w1"
    by (simp add: w_def e_def w1_def init_world_def l)
  have t: "tv_sec (gettimeofday w1) * 1000000 + tv_usec (gettimeofday w1) = 2001000"
    by (simp add: gettimeofday_def w1_def)
  have m: "timeleft_ms p 1000000 w1 = 58999"
    by (simp add: p_def w1_def timeleft_ms_def tv2msec_def gettimeofday_def c_div_def Let_def
        signed_divide_int_def)
  have m1: "\<not> (58999 :: u64) \<le>s 0" by (simp add: word_sle_eq)
  have m2: "\<not> alarm_fires (ucast (c_div (58999 :: u64) 1000)) (dur (wr e))"
    by (simp add: alarm_fires_def c_div_def signed_divide_int_def e_def)
  have wl: "fst (withintimelimits p (gettimeofday w1) (gettimeofday w2) w2)"
    by (simp add: p_def w1_def w2_def withintimelimits_def tv2msec_def gettimeofday_def
        c_div_def Let_def signed_divide_int_def word_sle_eq)
  have wt: "writetag p (wr e) (buildtag ''A'' 2001000) True w1 = (0, w2)"
    by (rule writetag_full_limited [OF _ lb _ _ _ wl])
      (simp_all add: e_def w1_def w2_def l dr)
  have lf: "length freetag = taglen"
    by (simp add: freetag_def taglen_def idlen_def stamplen_def)
  have "writetag p (wr e) freetag False w1 =
      (0, w1\<lparr>iobuf := freetag @ drop taglen (iobuf w1), clock := clock w1 + dur (wr e),
              disk := freetag @ drop taglen (iobuf w1)\<rparr>)"
    by (rule writetag_full) (simp_all add: e_def w1_def l lf)
  moreover have "w1\<lparr>iobuf := freetag @ drop taglen (iobuf w1), clock := clock w1 + dur (wr e),
              disk := freetag @ drop taglen (iobuf w1)\<rparr> = w3"
    by (simp add: w1_def w3_def e_def dr)
  ultimately have wf: "writetag p (wr e) freetag False w1 = (0, w3)" by simp
  have th: "sameid (buildtag ''A'' 1000000) ''A  ''
       \<and> renew p e ''A  '' 0 w = renew p e ''A'' 0 w
       \<and> release p e ''A  '' False w = release p e ''A'' False w
       \<and> (length (disk w) = 512 \<and> int taglen \<le> ret (rd e)
            \<and> take taglen (disk w) = buildtag ''A'' 1000000 \<longrightarrow>
          fst (release p e ''A  '' False w) \<noteq> 0
          \<and> release p e ''A  '' False w =
              (let n = min (nat (ret (rd e))) 512;
                   w1 = w\<lparr>clock := clock w + dur (rd e),
                          iobuf := take n (disk w) @ drop n (iobuf w)\<rparr>;
                   W = writetag p (wr e) freetag False w1
               in (if fst W < 0 then - 1 else 1, snd W)))
       \<and> (sigaction_ok e \<and> length (disk w) = 512 \<and> int taglen \<le> ret (rd e)
            \<and> take taglen (disk w) = buildtag ''A'' 1000000 \<longrightarrow>
          renew p e ''A  '' 0 w =
            (let n = min (nat (ret (rd e))) 512;
                 w1 = w\<lparr>clock := clock w + dur (rd e),
                        iobuf := take n (disk w) @ drop n (iobuf w)\<rparr>;
                 msleft = timeleft_ms p 1000000 w1;
                 t = tv_sec (gettimeofday w1) * 1000000 + tv_usec (gettimeofday w1);
                 W = writetag p (wr e) (buildtag ''A'' t) True w1
             in if msleft \<le>s 0 then Return (- ETIMEDOUT) 1000000 w1
                else if alarm_fires (ucast (c_div msleft 1000)) (dur (wr e)) then Panic
                else if fst W < 0 then Return (- errno (snd W)) 1000000 (snd W)
                else Return 1 1000000 (snd W)))"
    by (rule sameid_trailing_spaces [where a = 2 and b = 0])
      (simp_all add: NUL_def idlen_def numeral_2_eq_2)
  from th have sm: "sameid (buildtag ''A'' 1000000) ''A  ''" by blast
  from th h have "release p e ''A  '' False w =
              (let n = min (nat (ret (rd e))) 512;
                   w1 = w\<lparr>clock := clock w + dur (rd e),
                          iobuf := take n (disk w) @ drop n (iobuf w)\<rparr>;
                   W = writetag p (wr e) freetag False w1
               in (if fst W < 0 then - 1 else 1, snd W))"
    by blast
  then have rl: "release p e ''A  '' False w = (1, w3)"
    unfolding Let_def w1eq wf by simp
  from th h have "renew p e ''A  '' 0 w =
            (let n = min (nat (ret (rd e))) 512;
                 w1 = w\<lparr>clock := clock w + dur (rd e),
                        iobuf := take n (disk w) @ drop n (iobuf w)\<rparr>;
                 msleft = timeleft_ms p 1000000 w1;
                 t = tv_sec (gettimeofday w1) * 1000000 + tv_usec (gettimeofday w1);
                 W = writetag p (wr e) (buildtag ''A'' t) True w1
             in if msleft \<le>s 0 then Return (- ETIMEDOUT) 1000000 w1
                else if alarm_fires (ucast (c_div msleft 1000)) (dur (wr e)) then Panic
                else if fst W < 0 then Return (- errno (snd W)) 1000000 (snd W)
                else Return 1 1000000 (snd W))"
    by blast
  then have rn: "renew p e ''A  '' 0 w = Return 1 1000000 w2"
    unfolding Let_def w1eq t m wt using m1 m2 by simp
  have pre: "NUL \<notin> set ''A'' \<and> NUL \<notin> set ''A  '' \<and> length ''A'' \<le> idlen
      \<and> length ''A  '' \<le> idlen
      \<and> ''A'' @ replicate 2 (CHR '' '') = ''A  '' @ replicate 0 (CHR '' '')"
    by (simp add: NUL_def idlen_def numeral_2_eq_2)
  show ?thesis
    using pre sm h rl rn
    unfolding w_def d_def e_def p_def w2_def w3_def
    by blast
qed

end
